theory Spec2Isabelle
  imports Main
begin

section \<open>JavaScript values\<close>

text \<open>
  The normalizer of \<^verbatim>\<open>src/app/page.tsx\<close> takes a value of type \<^verbatim>\<open>any\<close>: the decoded
  JSON body of one agent call. A decoded JSON value is a tree, so the model is a datatype.
  \<^item> A string is a list of 8-bit code units read as Latin-1 (the first 256 code points);
    all texts of the claims are ASCII.
  \<^item> A Number is carried by the text that \<^verbatim>\<open>String(n)\<close> gives for it (\<^verbatim>\<open>"0"\<close> for both
    zeros, \<^verbatim>\<open>"NaN"\<close>, \<^verbatim>\<open>"0.9"\<close>, ...): the program only tests a number for truthiness and
    converts it to a string.
  \<^item> An object is the list of its own properties; a lookup takes the first entry of a key.
  \<^item> \<open>JUndefined\<close> is the value of a missing property.
\<close>

datatype jsval =
    JUndefined
  | JNull
  | JBool bool
  | JNum string
  | JStr string
  | JArr "jsval list"
  | JObj "(string \<times> jsval) list"

text \<open>What the program can throw: a TypeError of the runtime (a property read on \<^verbatim>\<open>null\<close>, a
  call of something that is not a function, a value with no conversion to a string, a
  response built with a body and a status that allows none), the RangeError of a response
  built with a status outside 200-599, the SyntaxError of \<^verbatim>\<open>JSON.parse\<close> with its message, and
  what a rejected \<^verbatim>\<open>fetch\<close> throws: an \<^verbatim>\<open>Error\<close> with a message, or a value that is not an
  \<^verbatim>\<open>Error\<close>.\<close>

datatype rejection = WithMessage string | NotAnError

datatype error = TypeError | RangeError | SyntaxError string | Rejected rejection

text \<open>\<^verbatim>\<open>JSON.parse\<close> is a built-in of the runtime, not code of the repository: every function
  that calls it takes it as the parameter \<open>P\<close>. \<open>Inl msg\<close> is the SyntaxError it throws, with
  its message.\<close>

type_synonym json_parse = "string \<Rightarrow> string + jsval"

definition bindE :: "'e + 'a \<Rightarrow> ('a \<Rightarrow> 'e + 'b) \<Rightarrow> 'e + 'b" where
  "bindE m f = (case m of Inl e \<Rightarrow> Inl e | Inr x \<Rightarrow> f x)"

text \<open>ToBoolean: what \<^verbatim>\<open>!x\<close>, \<^verbatim>\<open>x || y\<close> and \<^verbatim>\<open>if (x)\<close> test.\<close>

fun truthy :: "jsval \<Rightarrow> bool" where
  "truthy JUndefined = False"
| "truthy JNull = False"
| "truthy (JBool b) = b"
| "truthy (JNum n) = (n \<noteq> ''0'' \<and> n \<noteq> ''NaN'')"
| "truthy (JStr s) = (s \<noteq> [])"
| "truthy (JArr xs) = True"
| "truthy (JObj kvs) = True"

text \<open>\<^verbatim>\<open>a || b\<close>.\<close>

definition js_or :: "jsval \<Rightarrow> jsval \<Rightarrow> jsval" where
  "js_or a b = (if truthy a then a else b)"

text \<open>\<^verbatim>\<open>typeof v === 'string'\<close> and \<^verbatim>\<open>Array.isArray(v)\<close>.\<close>

fun is_string :: "jsval \<Rightarrow> bool" where
  "is_string (JStr s) = True"
| "is_string v = False"

fun isArray :: "jsval \<Rightarrow> bool" where
  "isArray (JArr xs) = True"
| "isArray v = False"

text \<open>
  \<^verbatim>\<open>v.k\<close> and \<^verbatim>\<open>v[k]\<close> on a receiver that is neither \<^verbatim>\<open>null\<close> nor \<^verbatim>\<open>undefined\<close>, for the
  property names the program reads (\<^verbatim>\<open>response\<close>, \<^verbatim>\<open>result\<close>, \<^verbatim>\<open>message\<close>, \<^verbatim>\<open>answer\<close>,
  \<^verbatim>\<open>text\<close>, ...): none of them is a property of \<^verbatim>\<open>Object.prototype\<close>, \<^verbatim>\<open>Array.prototype\<close>,
  \<^verbatim>\<open>String.prototype\<close>, \<^verbatim>\<open>Number.prototype\<close> or \<^verbatim>\<open>Boolean.prototype\<close>, so the read finds an own
  property of an object and is \<^verbatim>\<open>undefined\<close> on everything else. On \<^verbatim>\<open>null\<close> and
  \<^verbatim>\<open>undefined\<close> the read throws: \<open>read_prop\<close> is the read with that branch.
\<close>

fun getp :: "jsval \<Rightarrow> string \<Rightarrow> jsval" where
  "getp (JObj kvs) k = (case map_of kvs k of Some v \<Rightarrow> v | None \<Rightarrow> JUndefined)"
| "getp v k = JUndefined"

fun read_prop :: "jsval \<Rightarrow> string \<Rightarrow> error + jsval" where
  "read_prop JNull k = Inl TypeError"
| "read_prop JUndefined k = Inl TypeError"
| "read_prop v k = Inr (getp v k)"

text \<open>\<^verbatim>\<open>{ ...o, k: v }\<close> and \<^verbatim>\<open>o.k = v\<close> on the property list of an object: an existing key keeps
  its place and takes the new value, a new key is added at the end.\<close>

definition set_prop :: "(string \<times> jsval) list \<Rightarrow> string \<Rightarrow> jsval \<Rightarrow> (string \<times> jsval) list" where
  "set_prop kvs k v =
     (if k \<in> fst ` set kvs then map (\<lambda>(k', v'). if k' = k then (k', v) else (k', v')) kvs
      else kvs @ [(k, v)])"

text \<open>Decimal text of an array index, for the keys of the own properties of arrays and strings.\<close>

fun digit_char :: "nat \<Rightarrow> char" where
  "digit_char n = char_of (48 + n)"

function show_nat :: "nat \<Rightarrow> string" where
  "show_nat n = (if n < 10 then [digit_char n] else show_nat (n div 10) @ [digit_char (n mod 10)])"
  by pat_completeness auto
termination
  by (relation "measure id") auto

declare show_nat.simps [simp del]

text \<open>The own enumerable properties that a spread \<^verbatim>\<open>...v\<close> copies: the entries of an object,
  the indexed elements of an array, the indexed characters of a string, nothing otherwise.\<close>

fun own_props :: "jsval \<Rightarrow> (string \<times> jsval) list" where
  "own_props (JObj kvs) = kvs"
| "own_props (JArr xs) = zip (map show_nat [0..<length xs]) xs"
| "own_props (JStr s) = zip (map show_nat [0..<length s]) (map (\<lambda>c. JStr [c]) s)"
| "own_props v = []"

text \<open>\<^verbatim>\<open>{ ...a, ...b }\<close>.\<close>

definition spread2 :: "jsval \<Rightarrow> jsval \<Rightarrow> jsval" where
  "spread2 a b = JObj (fold (\<lambda>(k, v) acc. set_prop acc k v) (own_props b) (fold (\<lambda>(k, v) acc. set_prop acc k v) (own_props a) []))"

text \<open>
  \<^verbatim>\<open>String(v)\<close>. A primitive gives its text. An array gives its elements joined by commas,
  \<^verbatim>\<open>null\<close> and \<^verbatim>\<open>undefined\<close> elements as the empty text. A plain object gives
  \<^verbatim>\<open>"[object Object]"\<close> through the inherited \<^verbatim>\<open>toString\<close>; when it has an own property
  \<^verbatim>\<open>toString\<close> (decoded JSON is never callable) the conversion finds no usable method
  and throws a TypeError.
\<close>

fun join_comma :: "string list \<Rightarrow> string" where
  "join_comma [] = []"
| "join_comma [s] = s"
| "join_comma (s # t # ss) = s @ '','' @ join_comma (t # ss)"

fun stringifiable :: "jsval \<Rightarrow> bool" where
  "stringifiable (JArr xs) = list_all stringifiable xs"
| "stringifiable (JObj kvs) = (map_of kvs ''toString'' = None)"
| "stringifiable v = True"

fun str_of :: "jsval \<Rightarrow> string" where
  "str_of JUndefined = ''undefined''"
| "str_of JNull = ''null''"
| "str_of (JBool b) = (if b then ''true'' else ''false'')"
| "str_of (JNum n) = n"
| "str_of (JStr s) = s"
| "str_of (JArr xs) =
     join_comma (map (\<lambda>x. if x = JNull \<or> x = JUndefined then [] else str_of x) xs)"
| "str_of (JObj kvs) = ''[object Object]''"

definition js_String :: "jsval \<Rightarrow> error + string" where
  "js_String v = (if stringifiable v then Inr (str_of v) else Inl TypeError)"

text \<open>\<^verbatim>\<open>xs.map(String)\<close>: the first element that cannot be converted throws.\<close>

fun map_String :: "jsval list \<Rightarrow> error + string list" where
  "map_String [] = Inr []"
| "map_String (x # xs) =
     bindE (js_String x) (\<lambda>s. bindE (map_String xs) (\<lambda>ss. Inr (s # ss)))"

text \<open>\<^verbatim>\<open>s.toLowerCase()\<close> on Latin-1 text: \<^verbatim>\<open>A\<close>-\<^verbatim>\<open>Z\<close> and the accented capitals
  \<^verbatim>\<open>U+00C0\<close>-\<^verbatim>\<open>U+00DE\<close> (not the multiplication sign \<^verbatim>\<open>U+00D7\<close>) move up by 32.\<close>

definition toLowerChar :: "char \<Rightarrow> char" where
  "toLowerChar c =
     (let n = (of_char c :: nat)
      in if (65 \<le> n \<and> n \<le> 90) \<or> (192 \<le> n \<and> n \<le> 222 \<and> n \<noteq> 215) then char_of (n + 32) else c)"

definition toLowerCase :: "string \<Rightarrow> string" where
  "toLowerCase s = map toLowerChar s"

text \<open>\<^verbatim>\<open>v.toLowerCase()\<close> on any value that is not \<^verbatim>\<open>null\<close> or \<^verbatim>\<open>undefined\<close>: only a string has
  the method, every other receiver makes the call throw.\<close>

fun call_toLowerCase :: "jsval \<Rightarrow> error + string" where
  "call_toLowerCase (JStr s) = Inr (toLowerCase s)"
| "call_toLowerCase v = Inl TypeError"

text \<open>\<^verbatim>\<open>s.startsWith(p)\<close> and \<^verbatim>\<open>s.endsWith(p)\<close>.\<close>

definition startsWith :: "string \<Rightarrow> string \<Rightarrow> bool" where
  "startsWith s p = (take (length p) s = p)"

definition endsWith :: "string \<Rightarrow> string \<Rightarrow> bool" where
  "endsWith s p = (length p \<le> length s \<and> drop (length s - length p) s = p)"

section \<open>The response normalizer (\<^verbatim>\<open>src/app/page.tsx\<close>)\<close>

record ParsedResponse =
  answer :: jsval
  sources_consulted :: "string list"
  compliance_status :: string
  domains_accessed :: "string list"
  confidence :: string
  flags :: "string list"

text \<open>\<^verbatim>\<open>safeParseResult\<close>. \<^verbatim>\<open>typeof result === 'object'\<close> holds of arrays too; an array has no
  \<^verbatim>\<open>answer\<close> and is returned as it is.\<close>

fun safeParseResult :: "json_parse \<Rightarrow> jsval \<Rightarrow> jsval" where
  "safeParseResult P result =
     (if \<not> truthy result then JObj []
      else case result of
        JStr s \<Rightarrow> (case P s of Inr v \<Rightarrow> v | Inl e \<Rightarrow> JObj [(''answer'', JStr s)])
      | JObj kvs \<Rightarrow>
          (case getp result ''answer'' of
             JStr a \<Rightarrow>
               (if startsWith a ''{''
                then (case P a of Inr inner \<Rightarrow> spread2 result inner | Inl e \<Rightarrow> result)
                else result)
           | _ \<Rightarrow> result)
      | JArr xs \<Rightarrow> result
      | _ \<Rightarrow> JObj [(''answer'', JStr (str_of result))])"

declare safeParseResult.simps [simp del]

text \<open>The local \<^verbatim>\<open>defaults\<close>, as the returned record and as the object that
  \<^verbatim>\<open>{ ...defaults, answer: v }\<close> spreads.\<close>

definition defaults :: ParsedResponse where
  "defaults = \<lparr> answer = JStr [], sources_consulted = [], compliance_status = ''compliant'',
                domains_accessed = [], confidence = ''medium'', flags = [] \<rparr>"

definition defaults_props :: "(string \<times> jsval) list" where
  "defaults_props =
     [(''answer'', JStr []), (''sources_consulted'', JArr []),
      (''compliance_status'', JStr ''compliant''), (''domains_accessed'', JArr []),
      (''confidence'', JStr ''medium''), (''flags'', JArr [])]"

definition defaults_with_answer :: "jsval \<Rightarrow> jsval" where
  "defaults_with_answer v = JObj (set_prop defaults_props ''answer'' v)"

text \<open>\<^verbatim>\<open>(!data || !data.answer)\<close>.\<close>

definition no_answer :: "jsval \<Rightarrow> bool" where
  "no_answer data = (\<not> truthy data \<or> \<not> truthy (getp data ''answer''))"

text \<open>The body of \<^verbatim>\<open>if ((!data || !data.answer) && responseObj.message)\<close>: \<^verbatim>\<open>msgParsed.answer\<close>
  is read with no test of \<^verbatim>\<open>msgParsed\<close>, which is \<^verbatim>\<open>null\<close> when the message is the text
  \<^verbatim>\<open>null\<close>.\<close>

definition try_message :: "json_parse \<Rightarrow> jsval \<Rightarrow> jsval \<Rightarrow> error + jsval" where
  "try_message P message data =
     (let msgParsed = safeParseResult P message
      in bindE (read_prop msgParsed ''answer'') (\<lambda>a.
           if truthy a then Inr msgParsed
           else if is_string message \<and> length (str_of message) > 0
             then Inr (defaults_with_answer message)
           else Inr data))"

definition textKeys :: "string list" where
  "textKeys = [''text'', ''response'', ''content'', ''message'', ''answer_text'', ''summary'', ''output'']"

text \<open>The \<^verbatim>\<open>for (const key of textKeys)\<close> loop on a truthy \<^verbatim>\<open>data\<close>. Only an object has a
  truthy string under one of the keys, so the assignment \<^verbatim>\<open>data.answer = data[key]\<close> only
  ever runs on an object.\<close>

fun probe_textKeys :: "jsval \<Rightarrow> string list \<Rightarrow> jsval" where
  "probe_textKeys data [] = data"
| "probe_textKeys data (key # keys) =
     (if truthy (getp data key) \<and> is_string (getp data key)
      then (case data of JObj kvs \<Rightarrow> JObj (set_prop kvs ''answer'' (getp data key)) | _ \<Rightarrow> data)
      else probe_textKeys data keys)"

text \<open>Path 1 of the source: everything under \<^verbatim>\<open>if (responseObj)\<close>; \<^verbatim>\<open>data\<close> starts as
  \<^verbatim>\<open>null\<close>.\<close>

definition response_stage :: "json_parse \<Rightarrow> jsval \<Rightarrow> error + jsval" where
  "response_stage P apiResult =
     (let responseObj = getp apiResult ''response''
      in if truthy responseObj then
           (let data1 = (if truthy (getp responseObj ''result'')
                         then safeParseResult P (getp responseObj ''result'') else JNull)
            in bindE (if no_answer data1 \<and> truthy (getp responseObj ''message'')
                      then try_message P (getp responseObj ''message'') data1 else Inr data1)
                 (\<lambda>data2. Inr (if truthy data2 \<and> \<not> truthy (getp data2 ''answer'')
                                then probe_textKeys data2 textKeys else data2)))
         else Inr JNull)"

text \<open>Path 2: the top-level fields of \<^verbatim>\<open>apiResult\<close>.\<close>

definition toplevel_stage :: "json_parse \<Rightarrow> jsval \<Rightarrow> jsval \<Rightarrow> jsval" where
  "toplevel_stage P apiResult data =
     (if no_answer data then
        (if truthy (getp apiResult ''answer'') then safeParseResult P apiResult
         else if truthy (getp apiResult ''text'') then defaults_with_answer (getp apiResult ''text'')
         else if truthy (getp apiResult ''message'') \<and> is_string (getp apiResult ''message'')
           then defaults_with_answer (getp apiResult ''message'')
         else data)
      else data)"

text \<open>Path 3: \<^verbatim>\<open>raw_response\<close>; \<^verbatim>\<open>rawParsed.answer\<close> is read with no test of
  \<^verbatim>\<open>rawParsed\<close>.\<close>

definition raw_stage :: "json_parse \<Rightarrow> jsval \<Rightarrow> jsval \<Rightarrow> error + jsval" where
  "raw_stage P apiResult data =
     (if no_answer data \<and> truthy (getp apiResult ''raw_response'') then
        (let rawParsed = safeParseResult P (getp apiResult ''raw_response'')
         in bindE (read_prop rawParsed ''answer'') (\<lambda>a.
              if truthy a then Inr rawParsed
              else if is_string (getp apiResult ''raw_response'')
                then Inr (defaults_with_answer (getp apiResult ''raw_response''))
              else Inr data))
      else Inr data)"

text \<open>The local \<^verbatim>\<open>safeArray\<close>. In the string case \<^verbatim>\<open>parsed.map(String)\<close> runs inside the
  \<^verbatim>\<open>try\<close>, so a conversion that throws there falls through to the last line of the case.\<close>

fun safeArray :: "json_parse \<Rightarrow> jsval \<Rightarrow> error + string list" where
  "safeArray P (JArr xs) = map_String xs"
| "safeArray P (JStr s) =
     (case P s of
        Inr (JArr ys) \<Rightarrow>
          (case map_String ys of Inr ss \<Rightarrow> Inr ss
           | Inl e \<Rightarrow> Inr (if length s > 0 then [s] else []))
      | _ \<Rightarrow> Inr (if length s > 0 then [s] else []))"
| "safeArray P v = Inr []"

text \<open>The returned object literal, on a truthy \<^verbatim>\<open>data\<close>.\<close>

definition build_response :: "json_parse \<Rightarrow> jsval \<Rightarrow> error + ParsedResponse" where
  "build_response P data =
     bindE (safeArray P (getp data ''sources_consulted'')) (\<lambda>sc.
     bindE (call_toLowerCase (js_or (getp data ''compliance_status'') (JStr ''compliant''))) (\<lambda>cs.
     bindE (safeArray P (getp data ''domains_accessed'')) (\<lambda>da.
     bindE (call_toLowerCase (js_or (getp data ''confidence'') (JStr ''medium''))) (\<lambda>cf.
     bindE (safeArray P (getp data ''flags'')) (\<lambda>fl.
       Inr \<lparr> answer = js_or (getp data ''answer'') (js_or (getp data ''text'')
                        (js_or (getp data ''response'') (js_or (getp data ''content'')
                        (js_or (getp data ''message'') (JStr []))))),
             sources_consulted = sc, compliance_status = cs,
             domains_accessed = da, confidence = cf, flags = fl \<rparr>)))))"

definition deepExtractResponse :: "json_parse \<Rightarrow> jsval \<Rightarrow> error + ParsedResponse" where
  "deepExtractResponse P apiResult =
     (if \<not> truthy apiResult then Inr defaults
      else bindE (response_stage P apiResult) (\<lambda>data1.
           bindE (raw_stage P apiResult (toplevel_stage P apiResult data1)) (\<lambda>data.
             if \<not> truthy data then Inr defaults else build_response P data)))"

section \<open>The Markdown renderer (\<^verbatim>\<open>src/app/page.tsx\<close>)\<close>

text \<open>White space as \<^verbatim>\<open>trim()\<close> and the regular-expression class \<^verbatim>\<open>\s\<close> see it, on Latin-1:
  tab, line feed, vertical tab, form feed, carriage return, space, no-break space.\<close>

definition is_space :: "char \<Rightarrow> bool" where
  "is_space c = ((of_char c :: nat) \<in> {9, 10, 11, 12, 13, 32, 160})"

definition trim :: "string \<Rightarrow> string" where
  "trim s = rev (dropWhile is_space (rev (dropWhile is_space s)))"

text \<open>\<^verbatim>\<open>\d\<close>, and the characters that \<^verbatim>\<open>.\<close> matches without the \<^verbatim>\<open>s\<close> flag (all but the line
  terminators, which on Latin-1 are line feed and carriage return).\<close>

definition is_digit :: "char \<Rightarrow> bool" where
  "is_digit c = (48 \<le> (of_char c :: nat) \<and> (of_char c :: nat) \<le> 57)"

definition is_dot_char :: "char \<Rightarrow> bool" where
  "is_dot_char c = ((of_char c :: nat) \<noteq> 10 \<and> (of_char c :: nat) \<noteq> 13)"

text \<open>\<^verbatim>\<open>s.split(sep)\<close> for a separator of one character: never the empty array.\<close>

fun split_on :: "char \<Rightarrow> string \<Rightarrow> string list" where
  "split_on sep [] = [[]]"
| "split_on sep (c # cs) =
     (if c = sep then [] # split_on sep cs
      else (case split_on sep cs of w # ws \<Rightarrow> (c # w) # ws | [] \<Rightarrow> [[c]]))"

text \<open>\<^verbatim>\<open>lines.join('\n')\<close>.\<close>

fun join_lines :: "string list \<Rightarrow> string" where
  "join_lines [] = []"
| "join_lines [s] = s"
| "join_lines (s # t # ss) = s @ [CHR 0x0A] @ join_lines (t # ss)"

text \<open>
  The blocks pushed on \<^verbatim>\<open>elements\<close>. A block that shows inline text carries the text that
  the source hands to \<^verbatim>\<open>formatInline\<close>; a list item carries the indent that sets its margin.
  React keys, class names and styles are presentation and are left out.
\<close>

datatype list_kind = Ul | Ol

datatype block =
    Pre string
  | Hr
  | H5 string
  | H4 string
  | H3 string
  | H2 string
  | Blockquote string
  | ListBlock list_kind "(nat \<times> string) list"
  | Spacer
  | Para string

record md_state =
  elements :: "block list"
  inCodeBlock :: bool
  codeLines :: "string list"
  listItems :: "(nat \<times> string) list"
  listType :: "list_kind option"

definition md_init :: md_state where
  "md_init = \<lparr> elements = [], inCodeBlock = False, codeLines = [], listItems = [], listType = None \<rparr>"

definition flushList :: "md_state \<Rightarrow> md_state" where
  "flushList st =
     (case listType st of
        Some k \<Rightarrow>
          (if length (listItems st) > 0
           then st\<lparr> elements := elements st @ [ListBlock k (listItems st)],
                    listItems := [], listType := None \<rparr>
           else st)
      | None \<Rightarrow> st)"

text \<open>\<^verbatim>\<open>line.trim().startsWith('```')\<close>.\<close>

definition is_fence :: "string \<Rightarrow> bool" where
  "is_fence line = startsWith (trim line) ''```''"

text \<open>\<^verbatim>\<open>/^(-{3,}|\*{3,}|_{3,})$/.test(line.trim())\<close>.\<close>

definition is_rule :: "string \<Rightarrow> bool" where
  "is_rule line =
     (let t = trim line
      in length t \<ge> 3 \<and> (list_all (\<lambda>c. c = CHR ''-'') t \<or> list_all (\<lambda>c. c = CHR ''*'') t
                          \<or> list_all (\<lambda>c. c = CHR ''_'') t))"

text \<open>\<^verbatim>\<open>line.match(/^(\s*)([-*+])\s(.+)/)\<close>: the length of group 1 and group 3.\<close>

definition ul_match :: "string \<Rightarrow> (nat \<times> string) option" where
  "ul_match line =
     (case dropWhile is_space line of
        m # s # cs \<Rightarrow>
          (if (m = CHR ''-'' \<or> m = CHR ''*'' \<or> m = CHR ''+'') \<and> is_space s
              \<and> takeWhile is_dot_char cs \<noteq> []
           then Some (length (takeWhile is_space line), takeWhile is_dot_char cs)
           else None)
      | _ \<Rightarrow> None)"

text \<open>\<^verbatim>\<open>/^\s*\d+\.\s/.test(line)\<close> and \<^verbatim>\<open>line.match(/^(\s*)\d+\.\s(.+)/)\<close>.\<close>

definition ol_test :: "string \<Rightarrow> bool" where
  "ol_test line =
     (let r = dropWhile is_space line
      in takeWhile is_digit r \<noteq> [] \<and>
         (case dropWhile is_digit r of d # s # cs \<Rightarrow> d = CHR ''.'' \<and> is_space s | _ \<Rightarrow> False))"

definition ol_match :: "string \<Rightarrow> (nat \<times> string) option" where
  "ol_match line =
     (let r = dropWhile is_space line
      in if takeWhile is_digit r = [] then None
         else (case dropWhile is_digit r of
                 d # s # cs \<Rightarrow>
                   (if d = CHR ''.'' \<and> is_space s \<and> takeWhile is_dot_char cs \<noteq> []
                    then Some (length (takeWhile is_space line), takeWhile is_dot_char cs)
                    else None)
               | _ \<Rightarrow> None))"

text \<open>A list item: the list is flushed first when its kind changes.\<close>

definition push_item :: "list_kind \<Rightarrow> nat \<times> string \<Rightarrow> md_state \<Rightarrow> md_state" where
  "push_item k item st =
     (let st1 = (if listType st \<noteq> Some k then (flushList st)\<lparr> listType := Some k \<rparr> else st)
      in st1\<lparr> listItems := listItems st1 @ [item] \<rparr>)"

definition push_block :: "block \<Rightarrow> md_state \<Rightarrow> md_state" where
  "push_block b st = (let st1 = flushList st in st1\<lparr> elements := elements st1 @ [b] \<rparr>)"

text \<open>One turn of the \<^verbatim>\<open>for\<close> loop, the tests in the order of the source.\<close>

definition md_step :: "md_state \<Rightarrow> string \<Rightarrow> md_state" where
  "md_step st line =
     (if is_fence line then
        (if inCodeBlock st
         then st\<lparr> elements := elements st @ [Pre (join_lines (codeLines st))],
                  codeLines := [], inCodeBlock := False \<rparr>
         else (flushList st)\<lparr> inCodeBlock := True \<rparr>)
      else if inCodeBlock st then st\<lparr> codeLines := codeLines st @ [line] \<rparr>
      else if is_rule line then push_block Hr st
      else if startsWith line ''#### '' then push_block (H5 (drop 5 line)) st
      else if startsWith line ''### '' then push_block (H4 (drop 4 line)) st
      else if startsWith line ''## '' then push_block (H3 (drop 3 line)) st
      else if startsWith line ''# '' then push_block (H2 (drop 2 line)) st
      else if startsWith line ''> '' then push_block (Blockquote (drop 2 line)) st
      else (case ul_match line of
              Some item \<Rightarrow> push_item Ul item st
            | None \<Rightarrow>
                (case (if ol_test line then ol_match line else None) of
                   Some item \<Rightarrow> push_item Ol item st
                 | None \<Rightarrow>
                     (if trim line = [] then push_block Spacer st
                      else push_block (Para line) st))))"

definition md_run :: "md_state \<Rightarrow> string list \<Rightarrow> md_state" where
  "md_run st ls = foldl md_step st ls"

text \<open>\<^verbatim>\<open>renderMarkdown\<close>: \<open>None\<close> is the \<^verbatim>\<open>null\<close> returned for the empty text, \<open>Some\<close> the
  children of the returned \<^verbatim>\<open>div\<close>.\<close>

definition renderMarkdown :: "string \<Rightarrow> block list option" where
  "renderMarkdown text =
     (if text = [] then None
      else Some (elements (flushList (md_run md_init (split_on (CHR 0x0A) text)))))"

section \<open>The knowledge-base routes (\<^verbatim>\<open>src/unnamed/part_000\<close>, \<^verbatim>\<open>src/unnamed/part_001\<close>)\<close>

text \<open>
  The two files are two versions of one route module. A handler talks to the upstream RAG
  service through \<^verbatim>\<open>fetch\<close>; the model passes the service as a function from the requests
  sent so far and the request sent now to the reply, and a handler returns its response with
  the list of the requests it sent, in order. All requests carry the API key.
\<close>

record uploaded_file =
  file_name :: string
  file_type :: string
  file_bytes :: string

text \<open>
  \<^verbatim>\<open>FILE_TYPE_MAP[file.type]\<close>. The map is a plain object literal, so a lookup finds its three
  own entries and also the members it inherits from \<^verbatim>\<open>Object.prototype\<close>, which are functions
  or, under \<^verbatim>\<open>__proto__\<close>, the prototype object: all truthy.
\<close>

datatype type_lookup = Own string | Inherited string | Absent

definition object_prototype_names :: "string list" where
  "object_prototype_names =
     [''constructor'', ''__defineGetter__'', ''__defineSetter__'', ''hasOwnProperty'',
      ''__lookupGetter__'', ''__lookupSetter__'', ''isPrototypeOf'', ''propertyIsEnumerable'',
      ''toString'', ''valueOf'', ''__proto__'', ''toLocaleString'']"

definition FILE_TYPE_MAP :: "string \<Rightarrow> type_lookup" where
  "FILE_TYPE_MAP t =
     (if t = ''application/pdf'' then Own ''pdf''
      else if t = ''application/vnd.openxmlformats-officedocument.wordprocessingml.document''
        then Own ''docx''
      else if t = ''text/plain'' then Own ''txt''
      else if t \<in> set object_prototype_names then Inherited t
      else Absent)"

text \<open>The multipart form of a train call, as \<^verbatim>\<open>buildTrainForm\<close> and the older
  \<^verbatim>\<open>trainFormData\<close> fill it.\<close>

record train_form =
  form_file_name :: string
  form_file_type :: string
  form_file_bytes :: string
  data_parser :: string
  chunk_size :: string
  chunk_overlap :: string
  extra_info :: string

datatype up_request =
    ListDocs string
  | Train type_lookup string train_form
  | DeleteDocs string "string list"

datatype reply = Reply nat string | Throws rejection

type_synonym upstream = "up_request list \<Rightarrow> up_request \<Rightarrow> reply"

text \<open>\<^verbatim>\<open>response.ok\<close>.\<close>

definition ok :: "nat \<Rightarrow> bool" where
  "ok st = (200 \<le> st \<and> st \<le> 299)"

text \<open>The body handed to \<^verbatim>\<open>NextResponse.json\<close>: an object, or the body that a
  \<^verbatim>\<open>catch (error)\<close> builds from what was thrown, \<^verbatim>\<open>{ success: false, error: message }\<close> with
  the message of the exception (\<^verbatim>\<open>"Server error"\<close> when it is not an \<^verbatim>\<open>Error\<close>).\<close>

datatype route_body = Json jsval | Caught error

record http_response =
  status :: nat
  body :: route_body

definition respond :: "nat \<Rightarrow> (string \<times> jsval) list \<Rightarrow> http_response" where
  "respond st kvs = \<lparr> status = st, body = Json (JObj kvs) \<rparr>"

definition server_error :: "error \<Rightarrow> http_response" where
  "server_error e = \<lparr> status = 500, body = Caught e \<rparr>"

text \<open>
  \<^verbatim>\<open>NextResponse.json(obj, { status: st })\<close> inside the \<^verbatim>\<open>try\<close> of a handler, for a status taken
  from an upstream reply. Building the response throws a RangeError when the status is
  outside 200-599 and a TypeError when it is a status that allows no body (204, 205, 304;
  101 and 103 are out of range already); the \<^verbatim>\<open>catch\<close> of the handler then answers 500.
\<close>

definition json_response :: "nat \<Rightarrow> (string \<times> jsval) list \<Rightarrow> http_response" where
  "json_response st kvs =
     (if st < 200 \<or> 599 < st then server_error RangeError
      else if st = 204 \<or> st = 205 \<or> st = 304 then server_error TypeError
      else respond st kvs)"

text \<open>\<^verbatim>\<open>s.includes(sub)\<close>.\<close>

fun str_includes :: "string \<Rightarrow> string \<Rightarrow> bool" where
  "str_includes [] sub = (sub = [])"
| "str_includes (c # cs) sub = (startsWith (c # cs) sub \<or> str_includes cs sub)"

text \<open>The document records built from a decoded listing: \<^verbatim>\<open>filePaths.map(...)\<close>, which throws
  when \<^verbatim>\<open>data\<close> is \<^verbatim>\<open>null\<close> and when \<^verbatim>\<open>filePaths\<close> is not an array.\<close>

definition document_of :: "string \<Rightarrow> jsval" where
  "document_of fullPath =
     (let fileName = (if last (split_on (CHR ''/'') fullPath) = [] then fullPath
                      else last (split_on (CHR ''/'') fullPath));
          ext = toLowerCase (last (split_on (CHR ''.'') fileName));
          fileType = (if ext = ''pdf'' then ''pdf'' else if ext = ''docx'' then ''docx''
                      else if ext = ''txt'' then ''txt'' else ''unknown'')
      in JObj [(''fileName'', JStr fileName), (''fullPath'', JStr fullPath),
               (''fileType'', JStr fileType), (''status'', JStr ''active'')])"

definition listing_of :: "jsval \<Rightarrow> error + jsval" where
  "listing_of data =
     (if isArray data then Inr data
      else bindE (read_prop data ''documents'') (\<lambda>d.
           Inr (js_or d (js_or (getp data ''data'') (JArr [])))))"

definition documents_of :: "jsval \<Rightarrow> error + jsval list" where
  "documents_of data =
     bindE (listing_of data) (\<lambda>filePaths.
       case filePaths of
         JArr ps \<Rightarrow> bindE (map_String ps) (\<lambda>paths. Inr (map document_of paths))
       | _ \<Rightarrow> Inl TypeError)"

text \<open>The list flow shared by \<^verbatim>\<open>GET\<close> and the JSON branch of \<^verbatim>\<open>POST\<close>, after the reply of the
  listing call with an \<^verbatim>\<open>ok\<close> status.\<close>

definition list_success :: "json_parse \<Rightarrow> string \<Rightarrow> jsval \<Rightarrow> string \<Rightarrow> http_response" where
  "list_success P now ragId text =
     (case P text of
        Inl msg \<Rightarrow> server_error (SyntaxError msg)
      | Inr data \<Rightarrow>
          (case documents_of data of
             Inl e \<Rightarrow> server_error e
           | Inr docs \<Rightarrow>
               respond 200 [(''success'', JBool True), (''documents'', JArr docs),
                            (''ragId'', ragId), (''timestamp'', JStr now)]))"

text \<open>\<^verbatim>\<open>GET\<close> of part_001. \<open>key\<close> is \<^verbatim>\<open>LYZR_API_KEY\<close>, \<open>now\<close> the text of
  \<^verbatim>\<open>new Date().toISOString()\<close>, \<open>ragId\<close> the query parameter (\<open>None\<close> when it is not
  given).\<close>

definition GET :: "string \<Rightarrow> string \<Rightarrow> json_parse \<Rightarrow> upstream \<Rightarrow> string option
    \<Rightarrow> http_response \<times> up_request list" where
  "GET key now P U ragId =
     (let running = respond 200 [(''success'', JBool True),
                                 (''message'', JStr ''RAG Knowledge Base API is running''),
                                 (''timestamp'', JStr now)]
      in if key = [] then
           (respond 500 [(''success'', JBool False), (''error'', JStr ''LYZR_API_KEY not configured'')], [])
         else (case ragId of
                 None \<Rightarrow> (running, [])
               | Some r \<Rightarrow>
                   (if r = [] then (running, [])
                    else (case U [] (ListDocs r) of
                            Throws e \<Rightarrow> (server_error (Rejected e), [ListDocs r])
                          | Reply st text \<Rightarrow>
                              (if ok st then (list_success P now (JStr r) text, [ListDocs r])
                               else (running, [ListDocs r]))))))"

text \<open>
  A \<^verbatim>\<open>POST\<close> request as the handler reads it: the \<^verbatim>\<open>content-type\<close> header, what
  \<^verbatim>\<open>request.json()\<close> gives and what \<^verbatim>\<open>request.formData()\<close> gives (each may throw), and in
  the form the fields \<^verbatim>\<open>ragId\<close> and \<^verbatim>\<open>file\<close> at the types the source casts them to.
\<close>

record form_fields =
  ragId_field :: "string option"
  file_field :: "uploaded_file option"

record post_request =
  req_content_type :: "string option"
  req_json :: "error + jsval"
  req_form :: "error + form_fields"

definition key_missing :: http_response where
  "key_missing = respond 500 [(''success'', JBool False),
                              (''error'', JStr ''LYZR_API_KEY not configured on server'')]"

text \<open>The JSON branch of \<^verbatim>\<open>POST\<close>, the same in both files. \<^verbatim>\<open>encodeURIComponent(ragId)\<close> converts
  the identifier to a string first; the request is named by that string.\<close>

definition post_list :: "string \<Rightarrow> json_parse \<Rightarrow> upstream \<Rightarrow> post_request
    \<Rightarrow> http_response \<times> up_request list" where
  "post_list now P U rq =
     (case req_json rq of
        Inl e \<Rightarrow> (server_error e, [])
      | Inr b \<Rightarrow>
          (case read_prop b ''ragId'' of
             Inl e \<Rightarrow> (server_error e, [])
           | Inr ragId \<Rightarrow>
               (if \<not> truthy ragId then
                  (respond 400 [(''success'', JBool False), (''error'', JStr ''ragId is required'')], [])
                else (case js_String ragId of
                        Inl e \<Rightarrow> (server_error e, [])
                      | Inr r \<Rightarrow>
                          (case U [] (ListDocs r) of
                             Throws e \<Rightarrow> (server_error (Rejected e), [ListDocs r])
                           | Reply st text \<Rightarrow>
                               (if ok st then (list_success P now ragId text, [ListDocs r])
                                else (json_response st [(''success'', JBool False),
                                        (''error'', JStr (''Failed to get documents: '' @ show_nat st)),
                                        (''details'', JStr text)], [ListDocs r])))))))"

text \<open>How \<^verbatim>\<open>fileType\<close> is written into the JSON of a response: a function is left out (the
  member is \<^verbatim>\<open>undefined\<close>), the prototype object is \<^verbatim>\<open>{}\<close>.\<close>

fun fileType_json :: "type_lookup \<Rightarrow> jsval" where
  "fileType_json (Own t) = JStr t"
| "fileType_json (Inherited n) = (if n = ''__proto__'' then JObj [] else JUndefined)"
| "fileType_json Absent = JUndefined"

definition trained :: "string \<Rightarrow> uploaded_file \<Rightarrow> type_lookup \<Rightarrow> jsval \<Rightarrow> string \<Rightarrow> http_response" where
  "trained now file fileType trainData ragId =
     respond 200 [(''success'', JBool True),
                  (''message'', JStr ''Document uploaded and trained successfully''),
                  (''fileName'', JStr (file_name file)),
                  (''fileType'', fileType_json fileType),
                  (''documentCount'', js_or (getp trainData ''document_count'')
                                        (js_or (getp trainData ''chunks'') (JNum ''1''))),
                  (''ragId'', JStr ragId), (''timestamp'', JStr now)]"

text \<open>\<^verbatim>\<open>buildTrainForm(parser)\<close> of part_001: the same bytes for every parser.\<close>

definition buildTrainForm :: "uploaded_file \<Rightarrow> string \<Rightarrow> train_form" where
  "buildTrainForm file parser =
     \<lparr> form_file_name = file_name file,
       form_file_type = (if file_type file = [] then ''application/octet-stream'' else file_type file),
       form_file_bytes = file_bytes file,
       data_parser = parser, chunk_size = ''2000'', chunk_overlap = ''200'', extra_info = ''{}'' \<rparr>"

definition parsers :: "string list" where
  "parsers = [''auto'', ''llmsherpa'', ''none'']"

text \<open>The text that the \<^verbatim>\<open>catch (e)\<close> of the parser loop keeps when \<^verbatim>\<open>fetch\<close> rejects.\<close>

fun catch_message :: "rejection \<Rightarrow> string" where
  "catch_message (WithMessage msg) = msg"
| "catch_message NotAnError = ''Network error during upload''"

text \<open>
  The \<^verbatim>\<open>for (const parser of parsers)\<close> loop of part_001, on the parsers still to try, with
  \<^verbatim>\<open>trainData\<close>, \<^verbatim>\<open>lastTrainError\<close> and the requests sent so far. \<^verbatim>\<open>resp.json()\<close> is inside
  the \<^verbatim>\<open>try\<close>: a body that does not decode is caught, its SyntaxError message is kept, and the
  loop goes on.
\<close>

fun try_parsers :: "json_parse \<Rightarrow> upstream \<Rightarrow> (string \<Rightarrow> up_request) \<Rightarrow> string list
    \<Rightarrow> jsval \<Rightarrow> string \<Rightarrow> up_request list \<Rightarrow> jsval \<times> string \<times> up_request list" where
  "try_parsers P U mk [] trainData lastTrainError sent = (trainData, lastTrainError, sent)"
| "try_parsers P U mk (parser # rest) trainData lastTrainError sent =
     (case U sent (mk parser) of
        Throws e \<Rightarrow> try_parsers P U mk rest trainData (catch_message e) (sent @ [mk parser])
      | Reply st text \<Rightarrow>
          (if ok st then
             (case P text of
                Inr d \<Rightarrow> (d, lastTrainError, sent @ [mk parser])
              | Inl msg \<Rightarrow> try_parsers P U mk rest trainData msg (sent @ [mk parser]))
           else try_parsers P U mk rest trainData text (sent @ [mk parser])))"

text \<open>The extension fallback of part_001.\<close>

definition type_of_extension :: "string \<Rightarrow> type_lookup" where
  "type_of_extension name =
     (let ext = toLowerCase (last (split_on (CHR ''.'') name))
      in if ext = ''pdf'' then Own ''pdf'' else if ext = ''docx'' then Own ''docx''
         else if ext = ''txt'' then Own ''txt'' else Absent)"

definition resolve_type :: "uploaded_file \<Rightarrow> type_lookup" where
  "resolve_type file =
     (if FILE_TYPE_MAP (file_type file) = Absent then type_of_extension (file_name file)
      else FILE_TYPE_MAP (file_type file))"

definition upload_part_001 :: "string \<Rightarrow> json_parse \<Rightarrow> upstream \<Rightarrow> post_request
    \<Rightarrow> http_response \<times> up_request list" where
  "upload_part_001 now P U rq =
     (case req_form rq of
        Inl e \<Rightarrow> (server_error e, [])
      | Inr f \<Rightarrow>
          (case (ragId_field f, file_field f) of
             (Some ragId, Some file) \<Rightarrow>
               (if ragId = [] then
                  (respond 400 [(''success'', JBool False), (''error'', JStr ''ragId and file are required'')], [])
                else if resolve_type file = Absent then
                  (respond 400 [(''success'', JBool False),
                     (''error'', JStr (''Unsupported file type: ''
                        @ (if file_type file = [] then ''unknown'' else file_type file)
                        @ ''. Supported: PDF, DOCX, TXT''))], [])
                else
                  (case try_parsers P U (\<lambda>parser. Train (resolve_type file) ragId (buildTrainForm file parser))
                          parsers JNull [] [] of
                     (trainData, lastTrainError, sent) \<Rightarrow>
                       (if \<not> truthy trainData then
                          (respond 500 [(''success'', JBool False),
                             (''error'', JStr ''Failed to train document after trying multiple parsers''),
                             (''details'', JStr lastTrainError)], sent)
                        else (trained now file (resolve_type file) trainData ragId, sent))))
           | _ \<Rightarrow>
               (respond 400 [(''success'', JBool False), (''error'', JStr ''ragId and file are required'')], [])))"

text \<open>The upload branch of part_000: the media type alone decides, one train call with the
  parser \<^verbatim>\<open>auto\<close>, and the failure response is built with the status of a failed call.\<close>

definition trainFormData :: "uploaded_file \<Rightarrow> train_form" where
  "trainFormData file =
     \<lparr> form_file_name = file_name file, form_file_type = file_type file,
       form_file_bytes = file_bytes file,
       data_parser = ''auto'', chunk_size = ''2000'', chunk_overlap = ''200'', extra_info = ''{}'' \<rparr>"

definition upload_part_000 :: "string \<Rightarrow> json_parse \<Rightarrow> upstream \<Rightarrow> post_request
    \<Rightarrow> http_response \<times> up_request list" where
  "upload_part_000 now P U rq =
     (case req_form rq of
        Inl e \<Rightarrow> (server_error e, [])
      | Inr f \<Rightarrow>
          (case (ragId_field f, file_field f) of
             (Some ragId, Some file) \<Rightarrow>
               (if ragId = [] then
                  (respond 400 [(''success'', JBool False), (''error'', JStr ''ragId and file are required'')], [])
                else if FILE_TYPE_MAP (file_type file) = Absent then
                  (respond 400 [(''success'', JBool False),
                     (''error'', JStr (''Unsupported file type: '' @ file_type file
                        @ ''. Supported: PDF, DOCX, TXT''))], [])
                else
                  (let call = Train (FILE_TYPE_MAP (file_type file)) ragId (trainFormData file)
                   in case U [] call of
                        Throws e \<Rightarrow> (server_error (Rejected e), [call])
                      | Reply st text \<Rightarrow>
                          (if \<not> ok st then
                             (json_response st [(''success'', JBool False),
                                (''error'', JStr (''Failed to train document: '' @ show_nat st)),
                                (''details'', JStr text)], [call])
                           else (case P text of
                                   Inl msg \<Rightarrow> (server_error (SyntaxError msg), [call])
                                 | Inr trainData \<Rightarrow>
                                     (case read_prop trainData ''document_count'' of
                                        Inl e \<Rightarrow> (server_error e, [call])
                                      | Inr c \<Rightarrow>
                                          (trained now file (FILE_TYPE_MAP (file_type file)) trainData ragId,
                                           [call]))))))
           | _ \<Rightarrow>
               (respond 400 [(''success'', JBool False), (''error'', JStr ''ragId and file are required'')], [])))"

text \<open>\<^verbatim>\<open>POST\<close> of each file: the key, then the content type chooses the flow.\<close>

definition contentType_of :: "post_request \<Rightarrow> string" where
  "contentType_of rq = (case req_content_type rq of Some c \<Rightarrow> c | None \<Rightarrow> [])"

definition POST_part_001 :: "string \<Rightarrow> string \<Rightarrow> json_parse \<Rightarrow> upstream \<Rightarrow> post_request
    \<Rightarrow> http_response \<times> up_request list" where
  "POST_part_001 key now P U rq =
     (if key = [] then (key_missing, [])
      else if str_includes (contentType_of rq) ''application/json'' then post_list now P U rq
      else upload_part_001 now P U rq)"

definition POST_part_000 :: "string \<Rightarrow> string \<Rightarrow> json_parse \<Rightarrow> upstream \<Rightarrow> post_request
    \<Rightarrow> http_response \<times> up_request list" where
  "POST_part_000 key now P U rq =
     (if key = [] then (key_missing, [])
      else if str_includes (contentType_of rq) ''application/json'' then post_list now P U rq
      else upload_part_000 now P U rq)"

section \<open>Deleting documents (\<^verbatim>\<open>DELETE\<close>, the same in both files)\<close>

text \<open>\<^verbatim>\<open>allPaths.find((p) => p.endsWith(`/${name}`) || p === name)\<close> on the elements of the
  listing: an element that is not a string has no \<^verbatim>\<open>endsWith\<close> and the call throws.\<close>

fun find_path :: "string \<Rightarrow> jsval list \<Rightarrow> error + string option" where
  "find_path name [] = Inr None"
| "find_path name (p # ps) =
     (case p of
        JStr s \<Rightarrow> (if endsWith s (CHR ''/'' # name) \<or> s = name then Inr (Some s)
                   else find_path name ps)
      | _ \<Rightarrow> Inl TypeError)"

text \<open>The callback of \<^verbatim>\<open>documentNames.map\<close>; \<open>None\<close> is the \<^verbatim>\<open>undefined\<close> of a search that
  finds nothing. A listing that is not an array has no \<^verbatim>\<open>find\<close>.\<close>

definition resolve_name :: "jsval \<Rightarrow> string \<Rightarrow> error + string option" where
  "resolve_name allPaths name =
     (if str_includes name ''/'' then Inr (Some name)
      else (case allPaths of JArr ps \<Rightarrow> find_path name ps | _ \<Rightarrow> Inl TypeError))"

fun resolve_names :: "jsval \<Rightarrow> string list \<Rightarrow> error + string option list" where
  "resolve_names allPaths [] = Inr []"
| "resolve_names allPaths (name # names) =
     bindE (resolve_name allPaths name) (\<lambda>r.
     bindE (resolve_names allPaths names) (\<lambda>rs. Inr (r # rs)))"

text \<open>\<^verbatim>\<open>.filter(Boolean)\<close> keeps the truthy results: it drops \<^verbatim>\<open>undefined\<close> and the empty
  string.\<close>

definition fullPaths_of :: "jsval \<Rightarrow> string list \<Rightarrow> error + string list" where
  "fullPaths_of allPaths documentNames =
     bindE (resolve_names allPaths documentNames) (\<lambda>rs.
       Inr (map the (filter (\<lambda>r. r \<noteq> None \<and> r \<noteq> Some []) rs)))"

definition deleted :: "string \<Rightarrow> string \<Rightarrow> nat \<Rightarrow> http_response" where
  "deleted now ragId n =
     respond 200 [(''success'', JBool True), (''message'', JStr ''Documents deleted successfully''),
                  (''deletedCount'', JNum (show_nat n)), (''ragId'', JStr ragId),
                  (''timestamp'', JStr now)]"

definition delete_failed :: "nat \<Rightarrow> string \<Rightarrow> http_response" where
  "delete_failed st text =
     json_response st [(''success'', JBool False),
                 (''error'', JStr (''Failed to delete documents: '' @ show_nat st)),
                 (''details'', JStr text)]"

text \<open>
  \<^verbatim>\<open>DELETE\<close>, on a decoded body whose \<^verbatim>\<open>ragId\<close> is a string and whose \<^verbatim>\<open>documentNames\<close> is an
  array of strings (the source annotates \<^verbatim>\<open>name: string\<close>), so that the guard of the body is
  the test of \<^verbatim>\<open>ragId\<close>. The second phase runs when the first call has a failure status.
\<close>

definition DELETE :: "string \<Rightarrow> string \<Rightarrow> json_parse \<Rightarrow> upstream \<Rightarrow> string \<Rightarrow> string list
    \<Rightarrow> http_response \<times> up_request list" where
  "DELETE key now P U ragId documentNames =
     (if key = [] then (key_missing, [])
      else if ragId = [] then
        (respond 400 [(''success'', JBool False),
                      (''error'', JStr ''ragId and documentNames array are required'')], [])
      else
        (let first = DeleteDocs ragId documentNames; listing = ListDocs ragId
         in case U [] first of
              Throws e \<Rightarrow> (server_error (Rejected e), [first])
            | Reply st text \<Rightarrow>
                (if ok st then (deleted now ragId (length documentNames), [first])
                 else
                   (case U [first] listing of
                      Throws e \<Rightarrow> (server_error (Rejected e), [first, listing])
                    | Reply lst ltext \<Rightarrow>
                        (if ok lst then
                           (case P ltext of
                              Inl msg \<Rightarrow> (server_error (SyntaxError msg), [first, listing])
                            | Inr listData \<Rightarrow>
                                (case bindE (listing_of listData) (\<lambda>allPaths. fullPaths_of allPaths documentNames) of
                                   Inl e \<Rightarrow> (server_error e, [first, listing])
                                 | Inr fullPaths \<Rightarrow>
                                     (if length fullPaths > 0 then
                                        (let retry = DeleteDocs ragId fullPaths
                                         in case U [first, listing] retry of
                                              Throws e \<Rightarrow> (server_error (Rejected e), [first, listing, retry])
                                            | Reply rst rtext \<Rightarrow>
                                                (if ok rst
                                                 then (deleted now ragId (length fullPaths), [first, listing, retry])
                                                 else (delete_failed rst rtext, [first, listing, retry])))
                                      else (delete_failed st text, [first, listing]))))
                         else (delete_failed st text, [first, listing]))))))"

section \<open>Sample inputs\<close>

text \<open>
  A finite table of \<^verbatim>\<open>JSON.parse\<close>, for the concrete runs below: the rows are JSON texts with
  the values they decode to, and every other text is refused. The runs decode only texts of
  the table and texts that are not JSON (\<^verbatim>\<open>OK\<close>, \<^verbatim>\<open>B\<close>, \<^verbatim>\<open>R\<close>, \<^verbatim>\<open>report\<close>, the empty text).
\<close>

definition JSON_parse_table :: json_parse where
  \<open>JSON_parse_table s =
     (if s = ''null'' then Inr JNull
      else if s = ''{"answer":"Hi","confidence":"HIGH"}''
        then Inr (JObj [(''answer'', JStr ''Hi''), (''confidence'', JStr ''HIGH'')])
      else if s = ''{"answer":""}'' then Inr (JObj [(''answer'', JStr [])])
      else if s = ''[{"toString":1}]'' then Inr (JArr [JObj [(''toString'', JNum ''1'')]])
      else if s = ''["a","b"]'' then Inr (JArr [JStr ''a'', JStr ''b''])
      else if s = ''{"document_count":3}'' then Inr (JObj [(''document_count'', JNum ''3'')])
      else if s = ''["storage/report.pdf"]'' then Inr (JArr [JStr ''storage/report.pdf''])
      else Inl ''Unexpected token'')\<close>

definition sample_file :: uploaded_file where
  "sample_file = \<lparr> file_name = ''guide.pdf'', file_type = ''application/pdf'', file_bytes = ''%PDF-1.7'' \<rparr>"

text \<open>A file whose declared media type is the name of a member of \<^verbatim>\<open>Object.prototype\<close>.\<close>

definition odd_file :: uploaded_file where
  "odd_file = \<lparr> file_name = ''notes.bin'', file_type = ''constructor'', file_bytes = ''abc'' \<rparr>"

definition upload_request :: "uploaded_file \<Rightarrow> post_request" where
  "upload_request file =
     \<lparr> req_content_type = Some ''multipart/form-data; boundary=x'',
       req_json = Inl (SyntaxError ''Unexpected token''),
       req_form = Inr \<lparr> ragId_field = Some ''kb'', file_field = Some file \<rparr> \<rparr>"

text \<open>Upstream services for the runs: one whose third train call succeeds, one that refuses
  every call with 422, one whose first reply is 200 with a body that is not JSON, one that
  fails once, and one for a delete that fails, a listing and a retry.\<close>

definition U_third_succeeds :: upstream where
  \<open>U_third_succeeds sent rq =
     (if sent = [] then Reply 500 ''parser crashed''
      else if length sent = 1 then Throws (WithMessage ''socket hang up'')
      else Reply 200 ''{"document_count":3}'')\<close>

definition U_always_422 :: upstream where
  "U_always_422 sent rq = Reply 422 ''unprocessable''"

definition U_ok_without_json :: upstream where
  \<open>U_ok_without_json sent rq =
     (if sent = [] then Reply 200 ''OK'' else Reply 200 ''{"document_count":3}'')\<close>

definition U_fails_once :: upstream where
  \<open>U_fails_once sent rq =
     (if sent = [] then Reply 503 ''busy'' else Reply 200 ''{"document_count":3}'')\<close>

definition U_delete_sample :: upstream where
  \<open>U_delete_sample sent rq =
     (if sent = [] then Reply 404 ''not found''
      else if length sent = 1 then Reply 200 ''["storage/report.pdf"]''
      else Reply 200 ''{}'')\<close>

section \<open>Notions the properties are stated with\<close>

text \<open>The two members of the \<^verbatim>\<open>response\<close> object that the normalizer reads.\<close>

abbreviation response_result :: "jsval \<Rightarrow> jsval" where
  "response_result v \<equiv> getp (getp v ''response'') ''result''"

abbreviation response_message :: "jsval \<Rightarrow> jsval" where
  "response_message v \<equiv> getp (getp v ''response'') ''message''"

text \<open>
  Step 1 of the normalizer as the specification words it (section 4.1): the \<^verbatim>\<open>result\<close> of the
  response, parsed; its \<^verbatim>\<open>answer\<close>, or else the first non-empty string under one of the
  alternate keys. \<open>None\<close> when the step yields nothing.
\<close>

definition spec_step1 :: "json_parse \<Rightarrow> jsval \<Rightarrow> jsval option" where
  "spec_step1 P apiResult =
     (let result = getp (getp apiResult ''response'') ''result''
      in if \<not> truthy result then None
         else (let d = safeParseResult P result
               in if truthy (getp d ''answer'') then Some (getp d ''answer'')
                  else map_option (getp d)
                         (find (\<lambda>k. truthy (getp d k) \<and> is_string (getp d k)) textKeys)))"

text \<open>
  The extraction paths as the property of the first matching path words them, each as the
  value it resolves on a payload (\<open>None\<close> when it yields nothing), to be compared with
  \<open>deepExtractResponse\<close>. A value is usable when it is truthy. First, the \<^verbatim>\<open>answer\<close> of the
  parsed \<^verbatim>\<open>response.result\<close>.
\<close>

definition resolved_by_result :: "json_parse \<Rightarrow> jsval \<Rightarrow> jsval option" where
  "resolved_by_result P v =
     (if truthy (getp v ''response'') \<and> truthy (response_result v)
         \<and> truthy (getp (safeParseResult P (response_result v)) ''answer'')
      then Some (getp (safeParseResult P (response_result v)) ''answer'') else None)"

text \<open>\<^verbatim>\<open>response.message\<close>: the \<^verbatim>\<open>answer\<close> of its parse, or else the message itself when it is a
  string (truthy, so not empty).\<close>

definition resolved_by_message :: "json_parse \<Rightarrow> jsval \<Rightarrow> jsval option" where
  "resolved_by_message P v =
     (if truthy (getp v ''response'') \<and> truthy (response_message v) then
        (if truthy (getp (safeParseResult P (response_message v)) ''answer'')
         then Some (getp (safeParseResult P (response_message v)) ''answer'')
         else if is_string (response_message v) then Some (response_message v) else None)
      else None)"

text \<open>The first alternate key of the parsed \<^verbatim>\<open>response.result\<close> that holds a non-empty
  string.\<close>

definition resolved_by_alternate_key :: "json_parse \<Rightarrow> jsval \<Rightarrow> jsval option" where
  "resolved_by_alternate_key P v =
     (if truthy (getp v ''response'') \<and> truthy (response_result v) then
        map_option (getp (safeParseResult P (response_result v)))
          (find (\<lambda>k. truthy (getp (safeParseResult P (response_result v)) k)
                    \<and> is_string (getp (safeParseResult P (response_result v)) k)) textKeys)
      else None)"

text \<open>The top level. When the \<^verbatim>\<open>answer\<close> of the payload is truthy the path is the \<^verbatim>\<open>answer\<close>
  of the parsed payload and nothing else; only otherwise is it \<^verbatim>\<open>text\<close>, and after that a
  \<^verbatim>\<open>message\<close> that is a non-empty string.\<close>

definition resolved_by_top_level :: "json_parse \<Rightarrow> jsval \<Rightarrow> jsval option" where
  "resolved_by_top_level P v =
     (if truthy (getp v ''answer'') then
        (if truthy (getp (safeParseResult P v) ''answer'')
         then Some (getp (safeParseResult P v) ''answer'') else None)
      else if truthy (getp v ''text'') then Some (getp v ''text'')
      else if truthy (getp v ''message'') \<and> is_string (getp v ''message'')
        then Some (getp v ''message'')
      else None)"

text \<open>\<^verbatim>\<open>raw_response\<close>: the \<^verbatim>\<open>answer\<close> of its parse, or else \<^verbatim>\<open>raw_response\<close> itself when it is
  a string.\<close>

definition resolved_by_raw_response :: "json_parse \<Rightarrow> jsval \<Rightarrow> jsval option" where
  "resolved_by_raw_response P v =
     (if truthy (getp v ''raw_response'') then
        (if truthy (getp (safeParseResult P (getp v ''raw_response'')) ''answer'')
         then Some (getp (safeParseResult P (getp v ''raw_response'')) ''answer'')
         else if is_string (getp v ''raw_response'') then Some (getp v ''raw_response'') else None)
      else None)"

text \<open>The value of the earliest path that yields one.\<close>

fun first_some :: "'a option list \<Rightarrow> 'a option" where
  "first_some [] = None"
| "first_some (Some x # xs) = Some x"
| "first_some (None # xs) = first_some xs"

definition earliest_resolved :: "json_parse \<Rightarrow> jsval \<Rightarrow> jsval option" where
  "earliest_resolved P v =
     first_some [resolved_by_result P v, resolved_by_message P v, resolved_by_alternate_key P v,
                 resolved_by_top_level P v, resolved_by_raw_response P v]"

text \<open>
  Step 3 of the normalizer as the specification words it (section 4.1): the top-level
  \<^verbatim>\<open>answer\<close>, then \<^verbatim>\<open>text\<close>, then \<^verbatim>\<open>message\<close> when it is a string.
\<close>

definition spec_step3 :: "jsval \<Rightarrow> jsval option" where
  "spec_step3 apiResult =
     (if truthy (getp apiResult ''answer'') then Some (getp apiResult ''answer'')
      else if truthy (getp apiResult ''text'') then Some (getp apiResult ''text'')
      else if is_string (getp apiResult ''message'') \<and> truthy (getp apiResult ''message'')
        then Some (getp apiResult ''message'')
      else None)"

text \<open>Outside a code block no code line is pending.\<close>

definition md_inv :: "md_state \<Rightarrow> bool" where
  "md_inv st = (if inCodeBlock st then True else codeLines st = [])"

text \<open>
  The retry batch of the delete route, described name by name: a name with a path separator
  stands for itself; a bare name stands for the first path of the
  listing that ends with \<^verbatim>\<open>/name\<close> or is the name, when that path is not empty; any other
  bare name stands for nothing.
\<close>

definition spec_resolve :: "string list \<Rightarrow> string \<Rightarrow> string list" where
  "spec_resolve paths name =
     (if CHR ''/'' \<in> set name then [name]
      else (case find (\<lambda>p. endsWith p (CHR ''/'' # name) \<or> p = name) paths of
              Some p \<Rightarrow> (if p = [] then [] else [p])
            | None \<Rightarrow> []))"

definition spec_retry_batch :: "string list \<Rightarrow> string list \<Rightarrow> string list" where
  "spec_retry_batch paths names = concat (map (spec_resolve paths) names)"

text \<open>
  A train attempt of part_001 fails when \<^verbatim>\<open>fetch\<close> rejects, when the status is not a success
  status, and when the body of a success reply does not decode; \<open>attempt_error\<close> is the text
  the loop keeps in \<^verbatim>\<open>lastTrainError\<close> then.
\<close>

fun attempt_failed :: "json_parse \<Rightarrow> reply \<Rightarrow> bool" where
  "attempt_failed P (Throws e) = True"
| "attempt_failed P (Reply st text) = (if ok st then isl (P text) else True)"

fun attempt_error :: "json_parse \<Rightarrow> reply \<Rightarrow> string" where
  "attempt_error P (Throws e) = catch_message e"
| "attempt_error P (Reply st text) =
     (if ok st then (case P text of Inl msg \<Rightarrow> msg | Inr d \<Rightarrow> []) else text)"

section \<open>Properties of the normalizer\<close>

lemma getp_primitive [simp]:
  "getp (JStr s) k = JUndefined" "getp (JNum n) k = JUndefined" "getp (JBool b) k = JUndefined"
  by simp_all

text \<open>
  C10. Given a bare string, a number or a boolean (so also \<^verbatim>\<open>true\<close>), \<^verbatim>\<open>deepExtractResponse\<close>
  returns the record of defaults, whose answer is the empty string: a payload that is itself
  a string is never taken as the answer.
\<close>

theorem deepExtractResponse_primitive:
  "deepExtractResponse P (JStr s) = Inr defaults \<and>
   deepExtractResponse P (JNum n) = Inr defaults \<and>
   deepExtractResponse P (JBool b) = Inr defaults \<and>
   answer defaults = JStr []"
  by (simp add: deepExtractResponse_def response_stage_def toplevel_stage_def raw_stage_def
      no_answer_def bindE_def defaults_def)

text \<open>
  C3. \<^verbatim>\<open>deepExtractResponse\<close> is not total: it throws a TypeError on the payload
  \<^verbatim>\<open>{ answer: "ok", confidence: 0.9 }\<close>, where \<^verbatim>\<open>toLowerCase\<close> is called on a number, and on
  \<^verbatim>\<open>{ response: { message: "null" } }\<close>, where \<^verbatim>\<open>msgParsed\<close> is \<^verbatim>\<open>null\<close> and
  \<^verbatim>\<open>msgParsed.answer\<close> is read.
\<close>

theorem deepExtractResponse_raises:
  \<open>deepExtractResponse P (JObj [(''answer'', JStr ''ok''), (''confidence'', JNum ''0.9'')])
     = Inl TypeError \<and>
   deepExtractResponse JSON_parse_table (JObj [(''response'', JObj [(''message'', JStr ''null'')])])
     = Inl TypeError\<close>
  by (simp add: deepExtractResponse_def response_stage_def toplevel_stage_def raw_stage_def
      try_message_def build_response_def bindE_def no_answer_def startsWith_def js_or_def
      JSON_parse_table_def safeParseResult.simps)

lemma truthy_getp: "truthy (getp v k) \<Longrightarrow> truthy v"
  by (cases v) simp_all

lemma map_of_replace:
  "k \<in> fst ` set kvs \<Longrightarrow>
   map_of (map (\<lambda>(k', v'). if k' = k then (k', x) else (k', v')) kvs) k = Some x"
proof (induction kvs)
  case Nil
  then show ?case by simp
next
  case (Cons kv kvs)
  obtain k' v' where kv: "kv = (k', v')" by (cases kv)
  show ?case
  proof (cases "k' = k")
    case True
    then show ?thesis by (simp add: kv)
  next
    case False
    then have "k \<in> fst ` set kvs" using Cons.prems by (simp add: kv)
    then show ?thesis using Cons.IH False by (simp add: kv)
  qed
qed

lemma getp_set_prop: "getp (JObj (set_prop kvs k x)) k = x"
proof (cases "k \<in> fst ` set kvs")
  case True
  then show ?thesis by (simp add: set_prop_def map_of_replace)
next
  case False
  then have "map_of kvs k = None" by (simp add: map_of_eq_None_iff)
  then show ?thesis using False by (simp add: set_prop_def map_add_def)
qed

lemma lower_compliant: "toLowerCase ''compliant'' = ''compliant''" by code_simp
lemma lower_medium: "toLowerCase ''medium'' = ''medium''" by code_simp
lemma lower_HIGH: "toLowerCase ''HIGH'' = ''high''" by code_simp

lemma build_answer:
  "build_response P d = Inr r \<Longrightarrow> truthy (getp d ''answer'') \<Longrightarrow> answer r = getp d ''answer''"
  by (auto simp: build_response_def bindE_def js_or_def split: sum.splits)

lemma build_defaults_with_answer:
  "truthy a \<Longrightarrow> build_response P (defaults_with_answer a) = Inr (defaults\<lparr> answer := a \<rparr>)"
  by (simp add: build_response_def defaults_with_answer_def defaults_props_def set_prop_def
      bindE_def js_or_def defaults_def lower_compliant lower_medium)

lemma defaults_with_answer_has: "truthy a \<Longrightarrow> \<not> no_answer (defaults_with_answer a)"
  by (simp add: no_answer_def defaults_with_answer_def getp_set_prop del: getp.simps)

lemma toplevel_keep: "\<not> no_answer d \<Longrightarrow> toplevel_stage P v d = d"
  by (simp add: toplevel_stage_def)

lemma raw_keep: "\<not> no_answer d \<Longrightarrow> raw_stage P v d = Inr d"
  by (simp add: raw_stage_def)

lemma deep_from_stage:
  "truthy v \<Longrightarrow> response_stage P v = Inr dr \<Longrightarrow>
   deepExtractResponse P v =
     bindE (raw_stage P v (toplevel_stage P v dr))
       (\<lambda>d. if \<not> truthy d then Inr defaults else build_response P d)"
  by (simp add: deepExtractResponse_def bindE_def)

lemma deep_answer_found:
  "truthy v \<Longrightarrow> response_stage P v = Inr dr \<Longrightarrow> \<not> no_answer dr \<Longrightarrow>
   deepExtractResponse P v = build_response P dr"
  by (simp add: deep_from_stage toplevel_keep raw_keep bindE_def no_answer_def)

lemma deep_answer_found_later:
  "truthy v \<Longrightarrow> response_stage P v = Inr dr \<Longrightarrow> raw_stage P v (toplevel_stage P v dr) = Inr d \<Longrightarrow>
   \<not> no_answer d \<Longrightarrow> deepExtractResponse P v = build_response P d"
  by (simp add: deep_from_stage bindE_def no_answer_def)

lemma probe_textKeys_find:
  "find (\<lambda>k. truthy (getp (JObj kvs) k) \<and> is_string (getp (JObj kvs) k)) keys = Some k \<Longrightarrow>
   probe_textKeys (JObj kvs) keys = JObj (set_prop kvs ''answer'' (getp (JObj kvs) k))"
  by (induction keys) (auto split: if_splits)

lemma find_textKey_object:
  "find (\<lambda>k. truthy (getp d k) \<and> is_string (getp d k)) keys = Some k \<Longrightarrow> \<exists>kvs. d = JObj kvs"
  by (cases d) (auto dest: find_Some_iff [THEN iffD1])



lemma read_prop_truthy: "truthy x \<Longrightarrow> read_prop x k = Inr (getp x k)"
  by (cases x) simp_all

lemma read_prop_not_null: "x \<noteq> JNull \<Longrightarrow> x \<noteq> JUndefined \<Longrightarrow> read_prop x k = Inr (getp x k)"
  by (cases x) simp_all

lemma response_stage_absent: "\<not> truthy (getp v ''response'') \<Longrightarrow> response_stage P v = Inr JNull"
  by (simp add: response_stage_def)

lemma path_message_text:
  assumes "truthy (getp v ''response'')"
    and "no_answer (if truthy (getp (getp v ''response'') ''result'')
                    then safeParseResult P (getp (getp v ''response'') ''result'') else JNull)"
    and "getp (getp v ''response'') ''message'' = JStr s" and "s \<noteq> []"
    and "safeParseResult P (JStr s) \<noteq> JNull" and "safeParseResult P (JStr s) \<noteq> JUndefined"
    and "\<not> truthy (getp (safeParseResult P (JStr s)) ''answer'')"
  shows "deepExtractResponse P v = Inr (defaults\<lparr> answer := JStr s \<rparr>)"
proof -
  have "response_stage P v = Inr (defaults_with_answer (JStr s))"
    using assms defaults_with_answer_has [of "JStr s"]
    by (simp add: response_stage_def Let_def bindE_def try_message_def read_prop_not_null no_answer_def)
  then have "deepExtractResponse P v = build_response P (defaults_with_answer (JStr s))"
    using truthy_getp [OF assms(1)] defaults_with_answer_has [of "JStr s"] assms(4)
    by (rule_tac deep_answer_found) simp_all
  then show ?thesis using assms(4) by (simp add: build_defaults_with_answer)
qed

lemma path_toplevel_text:
  assumes "response_stage P v = Inr dr" and "no_answer dr"
    and "\<not> truthy (getp v ''answer'')" and "truthy (getp v ''text'')"
  shows "deepExtractResponse P v = Inr (defaults\<lparr> answer := getp v ''text'' \<rparr>)"
proof -
  have t: "toplevel_stage P v dr = defaults_with_answer (getp v ''text'')"
    using assms(2,3,4) by (simp add: toplevel_stage_def)
  have "deepExtractResponse P v = build_response P (defaults_with_answer (getp v ''text''))"
    using truthy_getp [OF assms(4)] assms(1) defaults_with_answer_has [OF assms(4)]
    by (rule_tac deep_answer_found_later [where dr = dr]) (simp_all add: t raw_keep)
  then show ?thesis using assms(4) by (simp add: build_defaults_with_answer)
qed

lemma path_toplevel_message:
  assumes "response_stage P v = Inr dr" and "no_answer dr"
    and "\<not> truthy (getp v ''answer'')" and "\<not> truthy (getp v ''text'')"
    and "getp v ''message'' = JStr s" and "s \<noteq> []"
  shows "deepExtractResponse P v = Inr (defaults\<lparr> answer := JStr s \<rparr>)"
proof -
  have tv: "truthy v" using truthy_getp [of v "''message''"] assms(5,6) by simp
  have t: "toplevel_stage P v dr = defaults_with_answer (JStr s)"
    using assms(2-6) by (simp add: toplevel_stage_def)
  have "deepExtractResponse P v = build_response P (defaults_with_answer (JStr s))"
    using tv assms(1) defaults_with_answer_has [of "JStr s"] assms(6)
    by (rule_tac deep_answer_found_later [where dr = dr]) (simp_all add: t raw_keep)
  then show ?thesis using assms(6) by (simp add: build_defaults_with_answer)
qed

lemma probe_textKeys_none:
  "find (\<lambda>k. truthy (getp d k) \<and> is_string (getp d k)) keys = None \<Longrightarrow> probe_textKeys d keys = d"
  by (induction keys) (auto split: if_splits)

lemma try_message_Inr:
  "try_message P M d = Inr d2 \<Longrightarrow>
   read_prop (safeParseResult P M) ''answer'' = Inr (getp (safeParseResult P M) ''answer'')"
  by (cases "safeParseResult P M") (simp_all add: try_message_def bindE_def)

lemma try_message_value:
  assumes "try_message P M d = Inr d2"
  shows "d2 = (if truthy (getp (safeParseResult P M) ''answer'') then safeParseResult P M
         else if is_string M \<and> str_of M \<noteq> [] then defaults_with_answer M else d)"
proof -
  have r: "read_prop (safeParseResult P M) ''answer'' = Inr (getp (safeParseResult P M) ''answer'')"
    by (rule try_message_Inr [OF assms])
  show ?thesis using assms unfolding try_message_def Let_def r bindE_def
    by (auto split: if_splits)
qed

lemma string_truthy: "is_string M \<Longrightarrow> truthy M \<Longrightarrow> str_of M \<noteq> []"
  by (cases M) simp_all

lemma stage_result:
  assumes "resolved_by_result P v = Some t"
  shows "response_stage P v = Inr (safeParseResult P (response_result v))
       \<and> getp (safeParseResult P (response_result v)) ''answer'' = t \<and> truthy t"
proof -
  let ?d = "safeParseResult P (response_result v)"
  have h: "truthy (getp v ''response'')" "truthy (response_result v)" "truthy (getp ?d ''answer'')"
      "getp ?d ''answer'' = t"
    using assms by (auto simp: resolved_by_result_def split: if_splits)
  have "response_stage P v = Inr ?d"
    using h(1-3) truthy_getp [OF h(3)]
    by (simp add: response_stage_def Let_def bindE_def no_answer_def)
  then show ?thesis using h by simp
qed

lemma no_result_answer:
  assumes "resolved_by_result P v = None" and "truthy (getp v ''response'')"
  shows "no_answer (if truthy (response_result v) then safeParseResult P (response_result v) else JNull)"
  using assms by (auto simp: resolved_by_result_def no_answer_def split: if_splits)

lemma stage_message:
  assumes "resolved_by_result P v = None" and "resolved_by_message P v = Some t"
    and "response_stage P v = Inr d"
  shows "getp d ''answer'' = t \<and> truthy t"
proof -
  let ?M = "response_message v"
  let ?d1 = "if truthy (response_result v) then safeParseResult P (response_result v) else JNull"
  have h: "truthy (getp v ''response'')" "truthy ?M"
    using assms(2) by (auto simp: resolved_by_message_def split: if_splits)
  have na: "no_answer ?d1" by (rule no_result_answer [OF assms(1) h(1)])
  have rs: "response_stage P v = bindE (try_message P ?M ?d1)
      (\<lambda>d2. Inr (if truthy d2 \<and> \<not> truthy (getp d2 ''answer'') then probe_textKeys d2 textKeys else d2))"
    using h na unfolding response_stage_def Let_def by simp
  obtain d2 where t: "try_message P ?M ?d1 = Inr d2"
      and d: "d = (if truthy d2 \<and> \<not> truthy (getp d2 ''answer'') then probe_textKeys d2 textKeys else d2)"
    using assms(3) unfolding rs bindE_def by (cases "try_message P ?M ?d1") auto
  show ?thesis
  proof (cases "truthy (getp (safeParseResult P ?M) ''answer'')")
    case True
    then have "d2 = safeParseResult P ?M" using try_message_value [OF t] by simp
    moreover have "t = getp (safeParseResult P ?M) ''answer''"
      using assms(2) True h by (simp add: resolved_by_message_def)
    ultimately show ?thesis using True d truthy_getp [OF True] by simp
  next
    case False
    then have s: "is_string ?M" and tM: "t = ?M"
      using assms(2) h by (auto simp: resolved_by_message_def split: if_splits)
    then have "d2 = defaults_with_answer ?M"
      using try_message_value [OF t] False string_truthy [OF s h(2)] by simp
    moreover have "getp (defaults_with_answer ?M) ''answer'' = ?M"
      unfolding defaults_with_answer_def by (rule getp_set_prop)
    ultimately show ?thesis using d tM h(2) by (simp del: getp.simps add: defaults_with_answer_def)
  qed
qed

lemma message_step:
  assumes "resolved_by_message P v = None" and "truthy (getp v ''response'')"
    and "response_stage P v = Inr d"
  shows "\<exists>d2. d2 = (if truthy (response_result v) then safeParseResult P (response_result v) else JNull)
          \<and> d = (if truthy d2 \<and> \<not> truthy (getp d2 ''answer'') then probe_textKeys d2 textKeys else d2)"
proof -
  let ?M = "response_message v"
  let ?d1 = "if truthy (response_result v) then safeParseResult P (response_result v) else JNull"
  let ?f = "\<lambda>d2. if truthy d2 \<and> \<not> truthy (getp d2 ''answer'') then probe_textKeys d2 textKeys else d2"
  show ?thesis
  proof (cases "no_answer ?d1 \<and> truthy ?M")
    case True
    have rs: "response_stage P v = bindE (try_message P ?M ?d1) (\<lambda>d2. Inr (?f d2))"
      using assms(2) True unfolding response_stage_def Let_def by simp
    obtain d2 where t: "try_message P ?M ?d1 = Inr d2" and d: "d = ?f d2"
      using assms(3) unfolding rs bindE_def by (cases "try_message P ?M ?d1") auto
    have n: "\<not> truthy (getp (safeParseResult P ?M) ''answer'')" "\<not> is_string ?M"
      using assms(1,2) True by (auto simp: resolved_by_message_def split: if_splits)
    have "d2 = ?d1" using try_message_value [OF t] n by simp
    then show ?thesis using d by simp
  next
    case False
    have rs: "response_stage P v = Inr (?f ?d1)"
      using assms(2) False unfolding response_stage_def Let_def bindE_def by auto
    then show ?thesis using assms(3) by simp
  qed
qed

lemma stage_alternate:
  assumes "resolved_by_result P v = None" and "resolved_by_message P v = None"
    and "resolved_by_alternate_key P v = Some t" and "response_stage P v = Inr d"
  shows "getp d ''answer'' = t \<and> truthy t"
proof -
  let ?d = "safeParseResult P (response_result v)"
  have h: "truthy (getp v ''response'')" "truthy (response_result v)"
    using assms(3) by (auto simp: resolved_by_alternate_key_def split: if_splits)
  obtain k where k: "find (\<lambda>k. truthy (getp ?d k) \<and> is_string (getp ?d k)) textKeys = Some k"
      and t: "t = getp ?d k"
    using assms(3) h by (auto simp: resolved_by_alternate_key_def)
  obtain kvs where kvs: "?d = JObj kvs" using find_textKey_object [OF k] by blast
  have tk: "truthy (getp ?d k)" using k by (auto simp: find_Some_iff)
  have na: "\<not> truthy (getp ?d ''answer'')"
    using assms(1) h by (auto simp: resolved_by_result_def split: if_splits)
  have td: "truthy ?d" by (simp add: kvs)
  have pr: "probe_textKeys ?d textKeys = JObj (set_prop kvs ''answer'' (getp ?d k))"
    using probe_textKeys_find [of kvs textKeys k] k by (simp add: kvs)
  have "d = probe_textKeys ?d textKeys"
    using message_step [OF assms(2) h(1) assms(4)] h(2) na td by simp
  then have "getp d ''answer'' = getp ?d k" unfolding pr by (simp only: getp_set_prop)
  then show ?thesis using t tk by simp
qed

lemma stage_none:
  assumes "resolved_by_result P v = None" and "resolved_by_message P v = None"
    and "resolved_by_alternate_key P v = None" and "response_stage P v = Inr d"
  shows "no_answer d"
proof (cases "truthy (getp v ''response'')")
  case False
  then show ?thesis using assms(4) by (simp add: response_stage_absent no_answer_def)
next
  case True
  let ?d = "safeParseResult P (response_result v)"
  show ?thesis
  proof (cases "truthy (response_result v)")
    case False
    then have "d = JNull" using message_step [OF assms(2) True assms(4)] by simp
    then show ?thesis by (simp add: no_answer_def)
  next
    case R: True
    have na: "\<not> truthy (getp ?d ''answer'')"
      using assms(1) True R by (auto simp: resolved_by_result_def split: if_splits)
    have "find (\<lambda>k. truthy (getp ?d k) \<and> is_string (getp ?d k)) textKeys = None"
      using assms(3) True R by (simp add: resolved_by_alternate_key_def)
    then have "probe_textKeys ?d textKeys = ?d" by (rule probe_textKeys_none)
    then have "d = ?d" using message_step [OF assms(2) True assms(4)] R by (simp split: if_splits)
    then show ?thesis using na by (simp add: no_answer_def)
  qed
qed

lemma toplevel_some:
  assumes "no_answer d" and "resolved_by_top_level P v = Some t"
  shows "getp (toplevel_stage P v d) ''answer'' = t \<and> truthy t"
proof (cases "truthy (getp v ''answer'')")
  case True
  then show ?thesis using assms
    by (auto simp: toplevel_stage_def resolved_by_top_level_def split: if_splits)
next
  case False
  have g: "\<And>a. getp (defaults_with_answer a) ''answer'' = a"
    unfolding defaults_with_answer_def by (rule getp_set_prop)
  show ?thesis using assms False
    by (auto simp: toplevel_stage_def resolved_by_top_level_def g simp del: getp.simps split: if_splits)
qed

lemma toplevel_none:
  assumes "no_answer d" and "resolved_by_top_level P v = None"
  shows "no_answer (toplevel_stage P v d)"
  using assms
  by (auto simp: toplevel_stage_def resolved_by_top_level_def no_answer_def simp del: getp.simps
      split: if_splits)

lemma raw_some:
  assumes "no_answer d" and "resolved_by_raw_response P v = Some t" and "raw_stage P v d = Inr d'"
  shows "getp d' ''answer'' = t \<and> truthy t"
proof -
  let ?W = "getp v ''raw_response''"
  have h: "truthy ?W" using assms(2) by (auto simp: resolved_by_raw_response_def split: if_splits)
  have rs: "raw_stage P v d = bindE (read_prop (safeParseResult P ?W) ''answer'') (\<lambda>a.
              if truthy a then Inr (safeParseResult P ?W)
              else if is_string ?W then Inr (defaults_with_answer ?W) else Inr d)"
    using assms(1) h unfolding raw_stage_def Let_def by simp
  have r: "read_prop (safeParseResult P ?W) ''answer'' = Inr (getp (safeParseResult P ?W) ''answer'')"
    using assms(3) unfolding rs bindE_def by (cases "safeParseResult P ?W") simp_all
  have g: "getp (defaults_with_answer ?W) ''answer'' = ?W"
    unfolding defaults_with_answer_def by (rule getp_set_prop)
  show ?thesis
  proof (cases "truthy (getp (safeParseResult P ?W) ''answer'')")
    case True
    then have "d' = safeParseResult P ?W" using assms(3) unfolding rs r bindE_def by simp
    moreover have "t = getp (safeParseResult P ?W) ''answer''"
      using assms(2) h True by (simp add: resolved_by_raw_response_def)
    ultimately show ?thesis using True by simp
  next
    case False
    then have s: "is_string ?W" "t = ?W"
      using assms(2) h by (auto simp: resolved_by_raw_response_def split: if_splits)
    then have "d' = defaults_with_answer ?W" using assms(3) False unfolding rs r bindE_def by simp
    then show ?thesis using g s h by (simp del: getp.simps)
  qed
qed

lemma deep_stages:
  assumes "truthy v" and "deepExtractResponse P v = Inr r"
  shows "\<exists>da db. response_stage P v = Inr da \<and> raw_stage P v (toplevel_stage P v da) = Inr db
           \<and> (if truthy db then build_response P db = Inr r else r = defaults)"
proof -
  obtain da where a: "response_stage P v = Inr da"
    using assms unfolding deepExtractResponse_def bindE_def
    by (cases "response_stage P v") auto
  obtain db where b: "raw_stage P v (toplevel_stage P v da) = Inr db"
    using assms a unfolding deepExtractResponse_def bindE_def
    by (cases "raw_stage P v (toplevel_stage P v da)") auto
  have "if truthy db then build_response P db = Inr r else r = defaults"
    using assms a b unfolding deepExtractResponse_def bindE_def by (auto split: if_splits)
  then show ?thesis using a b by blast
qed

lemma first_some_truthy:
  assumes "earliest_resolved P v = Some t"
  shows "truthy v"
proof (rule ccontr)
  assume n: "\<not> truthy v"
  have "\<And>k. \<not> truthy (getp v k)" using n truthy_getp by blast
  then have "earliest_resolved P v = None"
    by (simp add: earliest_resolved_def resolved_by_result_def resolved_by_message_def
        resolved_by_alternate_key_def resolved_by_top_level_def resolved_by_raw_response_def)
  then show False using assms by simp
qed

lemma stage_answer_final:
  assumes "truthy v" and "deepExtractResponse P v = Inr r"
    and "response_stage P v = Inr da" and "raw_stage P v (toplevel_stage P v da) = Inr db"
    and "getp db ''answer'' = t" and "truthy t"
  shows "answer r = t"
proof -
  have "truthy db" using assms(5,6) truthy_getp by blast
  then have "build_response P db = Inr r"
    using deep_stages [OF assms(1,2)] assms(3,4) by auto
  then show ?thesis using build_answer assms(5,6) by blast
qed

lemma first_match_general:
  assumes "deepExtractResponse P v = Inr r" and "earliest_resolved P v = Some t"
  shows "answer r = t \<and> truthy t"
proof -
  have tv: "truthy v" by (rule first_some_truthy [OF assms(2)])
  obtain da db where a: "response_stage P v = Inr da"
      and b: "raw_stage P v (toplevel_stage P v da) = Inr db"
    using deep_stages [OF tv assms(1)] by blast
  have keep: "getp db ''answer'' = t \<and> truthy t" if "getp da ''answer'' = t \<and> truthy t"
  proof -
    have "\<not> no_answer da" using that truthy_getp [of da "''answer''"] by (simp add: no_answer_def)
    then have "db = da" using b by (simp add: toplevel_keep raw_keep)
    then show ?thesis using that by simp
  qed
  have fin: "answer r = t \<and> truthy t" if "getp db ''answer'' = t \<and> truthy t"
    using stage_answer_final [OF tv assms(1) a b] that by blast
  show ?thesis
  proof (cases "resolved_by_result P v")
    case (Some x)
    then have "x = t" using assms(2) by (simp add: earliest_resolved_def)
    then show ?thesis using stage_result [of P v t] Some a keep fin by simp
  next
    case r: None
    show ?thesis
    proof (cases "resolved_by_message P v")
      case (Some x)
      then have "x = t" using assms(2) r by (simp add: earliest_resolved_def)
      then show ?thesis using stage_message [OF r _ a, of t] Some keep fin by simp
    next
      case m: None
      show ?thesis
      proof (cases "resolved_by_alternate_key P v")
        case (Some x)
        then have "x = t" using assms(2) r m by (simp add: earliest_resolved_def)
        then show ?thesis using stage_alternate [OF r m _ a, of t] Some keep fin by simp
      next
        case k: None
        have na: "no_answer da" by (rule stage_none [OF r m k a])
        show ?thesis
        proof (cases "resolved_by_top_level P v")
          case (Some x)
          then have "x = t" using assms(2) r m k by (simp add: earliest_resolved_def)
          then have s: "getp (toplevel_stage P v da) ''answer'' = t \<and> truthy t"
            using toplevel_some [OF na, of P v t] Some by simp
          then have "\<not> no_answer (toplevel_stage P v da)"
            using truthy_getp [of "toplevel_stage P v da" "''answer''"] by (simp add: no_answer_def)
          then have "db = toplevel_stage P v da" using b by (simp add: raw_keep)
          then show ?thesis using s fin by simp
        next
          case tl: None
          have nt: "no_answer (toplevel_stage P v da)" by (rule toplevel_none [OF na tl])
          have "resolved_by_raw_response P v = Some t"
            using assms(2) r m k tl
            by (cases "resolved_by_raw_response P v") (simp_all add: earliest_resolved_def)
          then show ?thesis using raw_some [OF nt _ b] fin by blast
        qed
      qed
    qed
  qed
qed

lemma safeParse_truthy:
  assumes "truthy M" and "\<not> is_string M"
  shows "truthy (safeParseResult P M)"
proof (cases M)
  case (JObj kvs)
  then show ?thesis
    by (simp add: safeParseResult.simps spread2_def split: jsval.splits sum.splits)
qed (use assms in \<open>simp_all add: safeParseResult.simps\<close>)

lemma stage_none_returns:
  assumes "resolved_by_result P v = None" and "resolved_by_message P v = None"
    and "resolved_by_alternate_key P v = None"
  shows "\<exists>d. response_stage P v = Inr d \<and> no_answer d"
proof -
  let ?M = "response_message v"
  let ?d1 = "if truthy (response_result v) then safeParseResult P (response_result v) else JNull"
  let ?f = "\<lambda>d2. if truthy d2 \<and> \<not> truthy (getp d2 ''answer'') then probe_textKeys d2 textKeys else d2"
  have "\<exists>d. response_stage P v = Inr d"
  proof (cases "truthy (getp v ''response'')")
    case False
    then show ?thesis by (simp add: response_stage_absent)
  next
    case True
    show ?thesis
    proof (cases "no_answer ?d1 \<and> truthy ?M")
      case c: True
      have rs: "response_stage P v = bindE (try_message P ?M ?d1) (\<lambda>d2. Inr (?f d2))"
        using True c unfolding response_stage_def Let_def by simp
      have n: "\<not> truthy (getp (safeParseResult P ?M) ''answer'')" "\<not> is_string ?M"
        using assms(2) True c by (auto simp: resolved_by_message_def split: if_splits)
      have "truthy (safeParseResult P ?M)" using c n(2) by (simp add: safeParse_truthy)
      then have "read_prop (safeParseResult P ?M) ''answer'' = Inr (getp (safeParseResult P ?M) ''answer'')"
        by (rule read_prop_truthy)
      then have "try_message P ?M ?d1 = Inr ?d1"
        using n unfolding try_message_def Let_def bindE_def by simp
      then show ?thesis unfolding rs bindE_def by simp
    next
      case False
      then have "response_stage P v = Inr (?f ?d1)"
        using True unfolding response_stage_def Let_def bindE_def by auto
      then show ?thesis by simp
    qed
  qed
  then obtain d where d: "response_stage P v = Inr d" by blast
  then show ?thesis using stage_none [OF assms d] by blast
qed

lemma message_as_it_is:
  assumes "resolved_by_result P v = None" and "truthy (getp v ''response'')"
    and "response_message v = JStr s" and "s \<noteq> []"
    and "safeParseResult P (JStr s) \<noteq> JNull" and "safeParseResult P (JStr s) \<noteq> JUndefined"
    and "\<not> truthy (getp (safeParseResult P (JStr s)) ''answer'')"
  shows "deepExtractResponse P v = Inr (defaults\<lparr> answer := JStr s \<rparr>)"
  by (rule path_message_text [OF assms(2) no_result_answer [OF assms(1,2)] assms(3-7)])

lemma toplevel_as_it_is:
  assumes "resolved_by_result P v = None" and "resolved_by_message P v = None"
    and "resolved_by_alternate_key P v = None"
    and "\<not> truthy (getp v ''answer'')" and "resolved_by_top_level P v = Some t"
  shows "deepExtractResponse P v = Inr (defaults\<lparr> answer := t \<rparr>)"
proof -
  obtain d where d: "response_stage P v = Inr d" "no_answer d"
    using stage_none_returns [OF assms(1-3)] by blast
  show ?thesis
  proof (cases "truthy (getp v ''text'')")
    case True
    then have "t = getp v ''text''" using assms(4,5) by (simp add: resolved_by_top_level_def)
    then show ?thesis using path_toplevel_text [OF d assms(4) True] by simp
  next
    case False
    then have m: "truthy (getp v ''message'')" "is_string (getp v ''message'')" "t = getp v ''message''"
      using assms(4,5) by (auto simp: resolved_by_top_level_def split: if_splits)
    then obtain s where s: "getp v ''message'' = JStr s" "s \<noteq> []"
      by (cases "getp v ''message''") auto
    show ?thesis using path_toplevel_message [OF d assms(4) False s] m(3) s(1) by simp
  qed
qed

lemma raw_as_it_is:
  assumes "resolved_by_result P v = None" and "resolved_by_message P v = None"
    and "resolved_by_alternate_key P v = None" and "resolved_by_top_level P v = None"
    and "getp v ''raw_response'' = JStr s" and "s \<noteq> []"
    and "safeParseResult P (JStr s) \<noteq> JNull" and "safeParseResult P (JStr s) \<noteq> JUndefined"
    and "\<not> truthy (getp (safeParseResult P (JStr s)) ''answer'')"
  shows "deepExtractResponse P v = Inr (defaults\<lparr> answer := JStr s \<rparr>)"
proof -
  obtain d where d: "response_stage P v = Inr d" "no_answer d"
    using stage_none_returns [OF assms(1-3)] by blast
  have tv: "truthy v" using truthy_getp [of v "''raw_response''"] assms(5,6) by simp
  have nt: "no_answer (toplevel_stage P v d)" by (rule toplevel_none [OF d(2) assms(4)])
  have "raw_stage P v (toplevel_stage P v d) = Inr (defaults_with_answer (JStr s))"
    using nt assms(5-9) by (simp add: raw_stage_def Let_def bindE_def read_prop_not_null)
  then have "deepExtractResponse P v = build_response P (defaults_with_answer (JStr s))"
    using tv d(1) defaults_with_answer_has [of "JStr s"] assms(6)
    by (rule_tac deep_answer_found_later [where dr = d]) simp_all
  then show ?thesis using assms(6) by (simp add: build_defaults_with_answer)
qed

text \<open>
  C1 (amended). The paths of \<^verbatim>\<open>deepExtractResponse\<close> are tried in this order: the \<^verbatim>\<open>answer\<close> of
  the parsed \<^verbatim>\<open>response.result\<close>; \<^verbatim>\<open>response.message\<close> (the \<^verbatim>\<open>answer\<close> of its parse, or else the
  message itself when it is a non-empty string); the first non-empty string under an
  alternate key of the parsed \<^verbatim>\<open>response.result\<close>; the top level (when the top-level
  \<^verbatim>\<open>answer\<close> is truthy, the \<^verbatim>\<open>answer\<close> of the parsed payload and nothing else; otherwise
  \<^verbatim>\<open>text\<close>; otherwise a \<^verbatim>\<open>message\<close> that is a non-empty string); \<^verbatim>\<open>raw_response\<close> (the
  \<^verbatim>\<open>answer\<close> of its parse, or else \<^verbatim>\<open>raw_response\<close> itself when it is a string). Whenever
  the function returns and one of these paths yields a usable value, the returned answer is
  the value of the earliest such path; it is truthy, so it is not the default answer.
  Where the earliest path takes a text as it is (the message, whose parse is not
  \<^verbatim>\<open>null\<close>; the top-level \<^verbatim>\<open>text\<close> or \<^verbatim>\<open>message\<close>; \<^verbatim>\<open>raw_response\<close>, whose parse is not \<^verbatim>\<open>null\<close>)
  the function does return, and returns the record of defaults with that answer. With
  \<^verbatim>\<open>JSON.parse\<close> decoding the text of the example, the payload
  \<^verbatim>\<open>{ response: { result: "{\"answer\":\"Hi\",\"confidence\":\"HIGH\"}" } }\<close> gives the answer
  \<^verbatim>\<open>Hi\<close> and the confidence \<^verbatim>\<open>high\<close>.
\<close>

theorem deepExtractResponse_first_match:
  \<open>(deepExtractResponse P v = Inr r \<and> earliest_resolved P v = Some t
    \<longrightarrow> answer r = t \<and> truthy t \<and> answer r \<noteq> answer defaults)
 \<and> (resolved_by_result P v = None \<and> truthy (getp v ''response'')
      \<and> response_message v = JStr s \<and> s \<noteq> []
      \<and> safeParseResult P (JStr s) \<noteq> JNull \<and> safeParseResult P (JStr s) \<noteq> JUndefined
      \<and> \<not> truthy (getp (safeParseResult P (JStr s)) ''answer'')
    \<longrightarrow> deepExtractResponse P v = Inr (defaults\<lparr> answer := JStr s \<rparr>))
 \<and> (resolved_by_result P v = None \<and> resolved_by_message P v = None
      \<and> resolved_by_alternate_key P v = None
      \<and> \<not> truthy (getp v ''answer'') \<and> resolved_by_top_level P v = Some t
    \<longrightarrow> deepExtractResponse P v = Inr (defaults\<lparr> answer := t \<rparr>))
 \<and> (resolved_by_result P v = None \<and> resolved_by_message P v = None
      \<and> resolved_by_alternate_key P v = None \<and> resolved_by_top_level P v = None
      \<and> getp v ''raw_response'' = JStr s \<and> s \<noteq> []
      \<and> safeParseResult P (JStr s) \<noteq> JNull \<and> safeParseResult P (JStr s) \<noteq> JUndefined
      \<and> \<not> truthy (getp (safeParseResult P (JStr s)) ''answer'')
    \<longrightarrow> deepExtractResponse P v = Inr (defaults\<lparr> answer := JStr s \<rparr>))
 \<and> (P ''{"answer":"Hi","confidence":"HIGH"}''
        = Inr (JObj [(''answer'', JStr ''Hi''), (''confidence'', JStr ''HIGH'')])
    \<longrightarrow> deepExtractResponse P
          (JObj [(''response'', JObj [(''result'', JStr ''{"answer":"Hi","confidence":"HIGH"}'')])])
        = Inr \<lparr> answer = JStr ''Hi'', sources_consulted = [], compliance_status = ''compliant'',
                domains_accessed = [], confidence = ''high'', flags = [] \<rparr>)\<close>
proof (intro conjI impI)
  assume a: "deepExtractResponse P v = Inr r \<and> earliest_resolved P v = Some t"
  then have f: "answer r = t \<and> truthy t" using first_match_general by blast
  then show "answer r = t" "truthy t" by simp_all
  show "answer r \<noteq> answer defaults" using f by (auto simp: defaults_def)
next
  assume "resolved_by_result P v = None \<and> truthy (getp v ''response'')
      \<and> response_message v = JStr s \<and> s \<noteq> []
      \<and> safeParseResult P (JStr s) \<noteq> JNull \<and> safeParseResult P (JStr s) \<noteq> JUndefined
      \<and> \<not> truthy (getp (safeParseResult P (JStr s)) ''answer'')"
  then show "deepExtractResponse P v = Inr (defaults\<lparr> answer := JStr s \<rparr>)"
    using message_as_it_is by blast
next
  assume "resolved_by_result P v = None \<and> resolved_by_message P v = None
      \<and> resolved_by_alternate_key P v = None
      \<and> \<not> truthy (getp v ''answer'') \<and> resolved_by_top_level P v = Some t"
  then show "deepExtractResponse P v = Inr (defaults\<lparr> answer := t \<rparr>)"
    using toplevel_as_it_is by blast
next
  assume "resolved_by_result P v = None \<and> resolved_by_message P v = None
      \<and> resolved_by_alternate_key P v = None \<and> resolved_by_top_level P v = None
      \<and> getp v ''raw_response'' = JStr s \<and> s \<noteq> []
      \<and> safeParseResult P (JStr s) \<noteq> JNull \<and> safeParseResult P (JStr s) \<noteq> JUndefined
      \<and> \<not> truthy (getp (safeParseResult P (JStr s)) ''answer'')"
  then show "deepExtractResponse P v = Inr (defaults\<lparr> answer := JStr s \<rparr>)"
    using raw_as_it_is by blast
next
  assume \<open>P ''{"answer":"Hi","confidence":"HIGH"}''
        = Inr (JObj [(''answer'', JStr ''Hi''), (''confidence'', JStr ''HIGH'')])\<close>
  then show \<open>deepExtractResponse P
          (JObj [(''response'', JObj [(''result'', JStr ''{"answer":"Hi","confidence":"HIGH"}'')])])
        = Inr \<lparr> answer = JStr ''Hi'', sources_consulted = [], compliance_status = ''compliant'',
                domains_accessed = [], confidence = ''high'', flags = [] \<rparr>\<close>
    by (simp add: deepExtractResponse_def response_stage_def toplevel_stage_def raw_stage_def
        build_response_def bindE_def no_answer_def js_or_def safeParseResult.simps
        lower_compliant lower_HIGH)
qed

theorem deepExtractResponse_first_match_witness:
  \<open>deepExtractResponse JSON_parse_table
      (JObj [(''response'', JObj [(''result'', JStr ''{"answer":"Hi","confidence":"HIGH"}'')])])
     = Inr \<lparr> answer = JStr ''Hi'', sources_consulted = [], compliance_status = ''compliant'',
             domains_accessed = [], confidence = ''high'', flags = [] \<rparr>
 \<and> deepExtractResponse JSON_parse_table
      (JObj [(''response'', JObj [(''result'', JObj [(''summary'', JStr ''A'')]), (''message'', JObj [])])])
     = Inr (defaults\<lparr> answer := JStr ''A'' \<rparr>)
 \<and> earliest_resolved JSON_parse_table
      (JObj [(''response'', JObj [(''result'', JObj [(''summary'', JStr ''A'')]), (''message'', JObj [])])])
     = Some (JStr ''A'')
 \<and> answer (defaults\<lparr> answer := JStr ''A'' \<rparr>) = JStr ''A''
 \<and> deepExtractResponse JSON_parse_table (JObj [(''text'', JStr ''T''), (''raw_response'', JStr ''R'')])
     = Inr (defaults\<lparr> answer := JStr ''T'' \<rparr>)\<close>
proof -
  let ?v1 = "JObj [(''response'', JObj [(''result'', JObj [(''summary'', JStr ''A'')]),
                                        (''message'', JObj [])])]"
  let ?v2 = "JObj [(''text'', JStr ''T''), (''raw_response'', JStr ''R'')]"
  let ?r1 = "defaults\<lparr> answer := JStr ''A'' \<rparr>"
  note m = deepExtractResponse_first_match
  have s1: "safeParseResult JSON_parse_table (JObj [(''summary'', JStr ''A'')]) = JObj [(''summary'', JStr ''A'')]"
    by (simp add: safeParseResult.simps)
  have s0: "safeParseResult JSON_parse_table (JObj []) = JObj []"
    by (simp add: safeParseResult.simps)
  have r1: "deepExtractResponse JSON_parse_table ?v1 = Inr ?r1"
    by (simp add: deepExtractResponse_def response_stage_def toplevel_stage_def raw_stage_def
        try_message_def build_response_def bindE_def no_answer_def js_or_def s0 s1 textKeys_def
        set_prop_def lower_compliant lower_medium defaults_def)
  have e1: "earliest_resolved JSON_parse_table ?v1 = Some (JStr ''A'')"
    by (simp add: earliest_resolved_def resolved_by_result_def resolved_by_message_def
        resolved_by_alternate_key_def s0 s1 textKeys_def)
  have e: \<open>deepExtractResponse JSON_parse_table
      (JObj [(''response'', JObj [(''result'', JStr ''{"answer":"Hi","confidence":"HIGH"}'')])])
     = Inr \<lparr> answer = JStr ''Hi'', sources_consulted = [], compliance_status = ''compliant'',
             domains_accessed = [], confidence = ''high'', flags = [] \<rparr>\<close>
    by (rule m [where P = JSON_parse_table, THEN conjunct2, THEN conjunct2, THEN conjunct2,
          THEN conjunct2, THEN mp])
       (simp add: JSON_parse_table_def)
  have "answer ?r1 = JStr ''A'' \<and> truthy (JStr ''A'') \<and> answer ?r1 \<noteq> answer defaults"
    by (rule m [where P = JSON_parse_table and v = ?v1 and r = ?r1 and t = "JStr ''A''",
          THEN conjunct1, THEN mp])
       (simp only: r1 e1)
  then have a1: "answer ?r1 = JStr ''A''" by simp
  have "deepExtractResponse JSON_parse_table ?v2 = Inr (defaults\<lparr> answer := JStr ''T'' \<rparr>)"
    by (rule m [where P = JSON_parse_table and v = ?v2 and t = "JStr ''T''", THEN conjunct2,
          THEN conjunct2, THEN conjunct1, THEN mp])
       (simp add: resolved_by_result_def resolved_by_message_def resolved_by_alternate_key_def
          resolved_by_top_level_def)
  then show ?thesis using e r1 e1 a1 by (intro conjI)
qed

text \<open>C1, as stated, fails. For \<^verbatim>\<open>{ response: { result: { text: "A" }, message: "B" } }\<close>
  step 1 of the specification resolves \<^verbatim>\<open>A\<close> from the alternate key \<^verbatim>\<open>text\<close>, and the function
  answers \<^verbatim>\<open>B\<close>: the message is tried before the alternate keys. For
  \<^verbatim>\<open>{ answer: "{\"answer\":\"\"}", text: "T", raw_response: "R" }\<close> step 1 resolves nothing,
  step 3 finds the top-level \<^verbatim>\<open>answer\<close>, a non-empty string, and the function answers \<^verbatim>\<open>R\<close>:
  a truthy top-level \<^verbatim>\<open>answer\<close> whose parse has an empty \<^verbatim>\<open>answer\<close> leaves the top level with
  nothing, \<^verbatim>\<open>text\<close> is not looked at, and \<^verbatim>\<open>raw_response\<close> is taken.\<close>

theorem result_alternate_key_counterexample:
  \<open>spec_step1 JSON_parse_table
      (JObj [(''response'', JObj [(''result'', JObj [(''text'', JStr ''A'')]), (''message'', JStr ''B'')])])
     = Some (JStr ''A'')
 \<and> deepExtractResponse JSON_parse_table
      (JObj [(''response'', JObj [(''result'', JObj [(''text'', JStr ''A'')]), (''message'', JStr ''B'')])])
     = Inr \<lparr> answer = JStr ''B'', sources_consulted = [], compliance_status = ''compliant'',
             domains_accessed = [], confidence = ''medium'', flags = [] \<rparr>
 \<and> spec_step1 JSON_parse_table
      (JObj [(''answer'', JStr ''{"answer":""}''), (''text'', JStr ''T''), (''raw_response'', JStr ''R'')])
     = None
 \<and> spec_step3
      (JObj [(''answer'', JStr ''{"answer":""}''), (''text'', JStr ''T''), (''raw_response'', JStr ''R'')])
     = Some (JStr ''{"answer":""}'')
 \<and> deepExtractResponse JSON_parse_table
      (JObj [(''answer'', JStr ''{"answer":""}''), (''text'', JStr ''T''), (''raw_response'', JStr ''R'')])
     = Inr \<lparr> answer = JStr ''R'', sources_consulted = [], compliance_status = ''compliant'',
             domains_accessed = [], confidence = ''medium'', flags = [] \<rparr>\<close>
  by (simp add: spec_step1_def spec_step3_def textKeys_def deepExtractResponse_def response_stage_def toplevel_stage_def
      raw_stage_def try_message_def build_response_def bindE_def no_answer_def js_or_def
      safeParseResult.simps JSON_parse_table_def lower_compliant lower_medium spread2_def set_prop_def startsWith_def)

lemma map_String_ok: "list_all stringifiable xs \<Longrightarrow> map_String xs = Inr (map str_of xs)"
  by (induction xs) (simp_all add: js_String_def bindE_def)

lemma map_String_fails: "\<not> list_all stringifiable xs \<Longrightarrow> map_String xs = Inl TypeError"
  by (induction xs) (auto simp: js_String_def bindE_def split: sum.splits)

text \<open>
  What \<^verbatim>\<open>safeArray\<close> gives where it returns: an array whose elements all convert to strings
  gives the array of their strings, same length and order; a string that decodes to such an
  array gives the strings of that array; a non-empty string that does not decode to an array
  gives the array of that one string; the empty string, which does not decode to an array,
  gives the empty array; a value that is neither an array nor a string gives the empty array.
\<close>

theorem safeArray_cases:
  "(list_all stringifiable xs \<longrightarrow> safeArray P (JArr xs) = Inr (map str_of xs) \<and> length (map str_of xs) = length xs)
 \<and> (P s = Inr (JArr ys) \<and> list_all stringifiable ys \<longrightarrow> safeArray P (JStr s) = Inr (map str_of ys))
 \<and> (s \<noteq> [] \<and> (\<forall>ys. P s \<noteq> Inr (JArr ys)) \<longrightarrow> safeArray P (JStr s) = Inr [s])
 \<and> ((\<forall>ys. P [] \<noteq> Inr (JArr ys)) \<longrightarrow> safeArray P (JStr []) = Inr [])
 \<and> (\<not> isArray v \<and> \<not> is_string v \<longrightarrow> safeArray P v = Inr [])"
proof (intro conjI impI)
  assume "list_all stringifiable xs"
  then show "safeArray P (JArr xs) = Inr (map str_of xs)" by (simp add: map_String_ok)
next
  show "length (map str_of xs) = length xs" by simp
next
  assume "P s = Inr (JArr ys) \<and> list_all stringifiable ys"
  then show "safeArray P (JStr s) = Inr (map str_of ys)" by (simp add: map_String_ok)
next
  assume a: "s \<noteq> [] \<and> (\<forall>ys. P s \<noteq> Inr (JArr ys))"
  then show "safeArray P (JStr s) = Inr [s]"
    by (cases "P s") (auto split: jsval.splits)
next
  assume a: "\<forall>ys. P [] \<noteq> Inr (JArr ys)"
  then show "safeArray P (JStr []) = Inr []"
    by (cases "P []") (auto split: jsval.splits)
next
  assume "\<not> isArray v \<and> \<not> is_string v"
  then show "safeArray P v = Inr []" by (cases v) simp_all
qed

theorem safeArray_cases_witness:
  \<open>safeArray JSON_parse_table (JArr [JNum ''1'', JStr ''a'', JArr [JNum ''2'', JNull]]) = Inr [''1'', ''a'', ''2,'']
 \<and> safeArray JSON_parse_table (JStr ''["a","b"]'') = Inr [''a'', ''b'']
 \<and> safeArray JSON_parse_table (JStr ''report'') = Inr [''report'']
 \<and> safeArray JSON_parse_table (JStr []) = Inr []
 \<and> safeArray JSON_parse_table (JNum ''7'') = Inr []\<close>
  using safeArray_cases [of "[JNum ''1'', JStr ''a'', JArr [JNum ''2'', JNull]]" JSON_parse_table
      \<open>''["a","b"]''\<close> "[JStr ''a'', JStr ''b'']" "JNum ''7''"]
    safeArray_cases [of "[]" JSON_parse_table "''report''" "[]" "JNull"]
  by (simp add: JSON_parse_table_def)

text \<open>
  C6. \<^verbatim>\<open>safeArray\<close> does not map every array to an array of strings of the same length: on
  the array \<^verbatim>\<open>[{ "toString": 1 }]\<close> the conversion \<^verbatim>\<open>String\<close> of the element throws a TypeError
  and \<^verbatim>\<open>safeArray\<close> throws it on, and so does \<^verbatim>\<open>deepExtractResponse\<close> on a payload with that
  array as \<^verbatim>\<open>sources_consulted\<close>; the same array given as the string
  \<^verbatim>\<open>"[{\"toString\":1}]"\<close> is caught by the \<^verbatim>\<open>try\<close> of the string case and gives the array of
  that one string.
\<close>

theorem safeArray_raises:
  \<open>safeArray P (JArr [JObj [(''toString'', JNum ''1'')]]) = Inl TypeError
 \<and> deepExtractResponse P
      (JObj [(''answer'', JStr ''x''), (''sources_consulted'', JArr [JObj [(''toString'', JNum ''1'')]])])
     = Inl TypeError
 \<and> safeArray JSON_parse_table (JStr ''[{"toString":1}]'') = Inr [''[{"toString":1}]'']\<close>
  by (simp add: js_String_def bindE_def deepExtractResponse_def response_stage_def toplevel_stage_def
      raw_stage_def build_response_def no_answer_def safeParseResult.simps startsWith_def
      JSON_parse_table_def)

section \<open>Properties of the Markdown renderer\<close>

lemma md_run_code_lines:
  "inCodeBlock st \<Longrightarrow> \<forall>l\<in>set ls. \<not> is_fence l \<Longrightarrow>
   md_run st ls = st\<lparr> codeLines := codeLines st @ ls \<rparr>"
proof (induction ls arbitrary: st)
  case Nil
  then show ?case by (simp add: md_run_def)
next
  case (Cons l ls)
  have step: "md_step st l = st\<lparr> codeLines := codeLines st @ [l] \<rparr>"
    using Cons.prems by (simp add: md_step_def)
  have "md_run st (l # ls) = md_run (md_step st l) ls" by (simp add: md_run_def)
  also have "\<dots> = (md_step st l)\<lparr> codeLines := codeLines (md_step st l) @ ls \<rparr>"
    using Cons.prems by (intro Cons.IH) (simp_all add: step)
  finally show ?case by (simp add: step)
qed

lemma md_run_append: "md_run st (xs @ ys) = md_run (md_run st xs) ys"
  by (simp add: md_run_def)

lemma flushList_fields [simp]:
  "inCodeBlock (flushList st) = inCodeBlock st" "codeLines (flushList st) = codeLines st"
  "listItems (flushList st) = (if listType st = None then listItems st else [])"
  by (auto simp: flushList_def split: option.splits)

lemma flushList_idem [simp]: "flushList (flushList st) = flushList st"
  by (auto simp: flushList_def split: option.splits)

lemma md_step_inv: "md_inv st \<Longrightarrow> md_inv (md_step st l)"
  by (auto simp: md_inv_def md_step_def push_block_def push_item_def Let_def
      split: option.splits if_splits)

lemma md_run_inv: "md_inv st \<Longrightarrow> md_inv (md_run st ls)"
  unfolding md_run_def by (induction ls arbitrary: st) (simp_all add: md_step_inv)

lemma md_init_inv: "md_inv md_init"
  by (simp add: md_inv_def md_init_def)

lemma open_fence:
  assumes "\<not> inCodeBlock st" and "is_fence f" and "\<forall>l\<in>set inner. \<not> is_fence l"
  shows "md_run st (f # inner) = (flushList st)\<lparr> inCodeBlock := True, codeLines := codeLines st @ inner \<rparr>"
proof -
  have "md_step st f = (flushList st)\<lparr> inCodeBlock := True \<rparr>"
    using assms(1,2) by (simp add: md_step_def)
  then have "md_run st (f # inner) = md_run ((flushList st)\<lparr> inCodeBlock := True \<rparr>) inner"
    by (simp add: md_run_def)
  also have "\<dots> = ((flushList st)\<lparr> inCodeBlock := True \<rparr>)\<lparr> codeLines := codeLines ((flushList st)\<lparr> inCodeBlock := True \<rparr>) @ inner \<rparr>"
    by (rule md_run_code_lines) (simp_all add: assms(3))
  finally show ?thesis by simp
qed

text \<open>
  C8. Let the lines of the text be \<open>pre\<close>, a fence line \<open>f\<close> met outside a code block, lines
  \<open>inner\<close> none of which is a fence line, and the rest. When there is no rest (the fence is
  never closed) the loop ends inside the code block with all of \<open>inner\<close> as its code lines,
  and the rendered blocks are those of \<open>pre\<close> alone: the fence and all remaining lines are
  taken as code and give no block. When the rest starts with a fence line, the
  lines from \<open>f\<close> to that fence give exactly one code block holding \<open>inner\<close>, and no heading,
  list, rule, quote or paragraph. A line \<^verbatim>\<open>### Title\<close> after an open fence gives no heading,
  where alone it gives one.
\<close>

theorem fence_takes_lines_as_code:
  assumes "split_on (CHR 0x0A) text = pre @ f # inner @ rest"
    and "\<not> inCodeBlock (md_run md_init pre)"
    and "is_fence f" and "\<forall>l\<in>set inner. \<not> is_fence l"
  shows "(rest = [] \<longrightarrow>
            renderMarkdown text = Some (elements (flushList (md_run md_init pre)))
            \<and> inCodeBlock (md_run md_init (split_on (CHR 0x0A) text))
            \<and> codeLines (md_run md_init (split_on (CHR 0x0A) text)) = inner)
       \<and> (\<forall>g more. rest = g # more \<and> is_fence g \<longrightarrow>
            renderMarkdown text =
              Some (elements (flushList (md_run
                ((flushList (md_run md_init pre))
                   \<lparr> elements := elements (flushList (md_run md_init pre)) @ [Pre (join_lines inner)] \<rparr>)
                more))))
       \<and> renderMarkdown (''```'' @ [CHR 0x0A] @ ''### Title'') = Some []
       \<and> renderMarkdown ''### Title'' = Some [H4 ''Title'']"
proof (intro conjI impI allI)
  let ?st = "md_run md_init pre"
  have ne: "text \<noteq> []"
  proof
    assume "text = []"
    then have "pre @ f # inner @ rest = [[]]" using assms(1) by simp
    then have "f = []" by (cases pre) simp_all
    then show False using assms(3) by (simp add: is_fence_def trim_def startsWith_def)
  qed
  have cl: "codeLines ?st = []"
    using md_run_inv [OF md_init_inv, of pre] assms(2) by (simp add: md_inv_def)
  have opened: "md_run md_init (pre @ f # inner) = (flushList ?st)\<lparr> inCodeBlock := True, codeLines := inner \<rparr>"
    using open_fence [OF assms(2,3,4)] cl by (simp add: md_run_append)
  { assume "rest = []"
    then have r: "md_run md_init (split_on (CHR 0x0A) text) = (flushList ?st)\<lparr> inCodeBlock := True, codeLines := inner \<rparr>"
      using assms(1) opened by simp
    then show "renderMarkdown text = Some (elements (flushList ?st))"
      using ne by (simp add: renderMarkdown_def flushList_def split: option.splits)
    show "inCodeBlock (md_run md_init (split_on (CHR 0x0A) text))" by (simp add: r)
    show "codeLines (md_run md_init (split_on (CHR 0x0A) text)) = inner" by (simp add: r) }
  { fix g more assume r: "rest = g # more \<and> is_fence g"
    have "md_run md_init (split_on (CHR 0x0A) text) = md_run (md_step (md_run md_init (pre @ f # inner)) g) more"
      using assms(1) r by (simp add: md_run_def)
    also have "md_step (md_run md_init (pre @ f # inner)) g =
        (flushList ?st)\<lparr> elements := elements (flushList ?st) @ [Pre (join_lines inner)] \<rparr>"
      using r assms(2) cl by (intro md_state.equality) (simp_all add: opened md_step_def)
    finally show "renderMarkdown text =
              Some (elements (flushList (md_run
                ((flushList ?st)\<lparr> elements := elements (flushList ?st) @ [Pre (join_lines inner)] \<rparr>)
                more)))"
      using ne by (simp add: renderMarkdown_def) }
  show "renderMarkdown (''```'' @ [CHR 0x0A] @ ''### Title'') = Some []"
    by (simp add: renderMarkdown_def md_run_def md_init_def md_step_def is_fence_def trim_def
        startsWith_def is_space_def flushList_def)
  show "renderMarkdown ''### Title'' = Some [H4 ''Title'']"
    by (simp add: renderMarkdown_def md_run_def md_init_def md_step_def is_fence_def trim_def
        startsWith_def is_space_def flushList_def is_rule_def push_block_def)
qed

theorem fence_takes_lines_as_code_witness:
  "renderMarkdown (''x'' @ [CHR 0x0A] @ ''```'' @ [CHR 0x0A] @ ''### Title'' @ [CHR 0x0A] @ ''- a'')
     = Some [Para ''x'']
 \<and> renderMarkdown (''```js'' @ [CHR 0x0A] @ ''# h'' @ [CHR 0x0A] @ ''> q'' @ [CHR 0x0A] @ ''```'' @ [CHR 0x0A] @ ''# y'')
     = Some [Pre (''# h'' @ [CHR 0x0A] @ ''> q''), H2 ''y'']"
proof -
  note m = fence_takes_lines_as_code
  let ?t1 = "''x'' @ [CHR 0x0A] @ ''```'' @ [CHR 0x0A] @ ''### Title'' @ [CHR 0x0A] @ ''- a''"
  let ?t2 = "''```js'' @ [CHR 0x0A] @ ''# h'' @ [CHR 0x0A] @ ''> q'' @ [CHR 0x0A] @ ''```'' @ [CHR 0x0A] @ ''# y''"
  have f1: "is_fence ''```''" "is_fence ''```js''"
    by (simp_all add: is_fence_def trim_def startsWith_def is_space_def)
  have n1: "\<forall>l\<in>set [''### Title'', ''- a'']. \<not> is_fence l"
    by (simp add: is_fence_def trim_def startsWith_def is_space_def)
  have n2: "\<forall>l\<in>set [''# h'', ''> q'']. \<not> is_fence l"
    by (simp add: is_fence_def trim_def startsWith_def is_space_def)
  have p1: "md_run md_init [''x''] = md_init\<lparr> elements := [Para ''x''] \<rparr>"
    by (simp add: md_run_def md_init_def md_step_def is_fence_def trim_def startsWith_def
        is_space_def is_rule_def ul_match_def ol_test_def is_digit_def push_block_def flushList_def)
  have e0: "md_run md_init [] = md_init" by (simp add: md_run_def)
  have fl: "flushList md_init = md_init"
    "flushList (md_init\<lparr> elements := [Para ''x''] \<rparr>) = md_init\<lparr> elements := [Para ''x''] \<rparr>"
    by (simp_all add: flushList_def md_init_def)
  have p2: "elements (flushList (md_run (md_init\<lparr> elements := elements md_init @ [Pre (join_lines [''# h'', ''> q''])] \<rparr>) [''# y'']))
       = [Pre (''# h'' @ [CHR 0x0A] @ ''> q''), H2 ''y'']"
    by (simp add: md_run_def md_init_def md_step_def is_fence_def trim_def startsWith_def
        is_space_def is_rule_def push_block_def flushList_def)
  have sp1: "split_on (CHR 0x0A) ?t1 = [''x''] @ ''```'' # [''### Title'', ''- a''] @ []" by simp
  have sp2: "split_on (CHR 0x0A) ?t2 = [] @ ''```js'' # [''# h'', ''> q''] @ [''```'', ''# y'']" by simp
  have c1: "\<not> inCodeBlock (md_run md_init [''x''])" unfolding p1 by (simp add: md_init_def)
  have c2: "\<not> inCodeBlock (md_run md_init [])" unfolding e0 by (simp add: md_init_def)
  from m [OF sp1 c1 f1(1) n1]
  have "renderMarkdown ?t1 = Some (elements (flushList (md_run md_init [''x''])))" by blast
  then have w1: "renderMarkdown ?t1 = Some [Para ''x'']" unfolding p1 fl by (simp add: md_init_def)
  from m [OF sp2 c2 f1(2) n2] f1(1)
  have "renderMarkdown ?t2 =
          Some (elements (flushList (md_run
            ((flushList (md_run md_init []))
               \<lparr> elements := elements (flushList (md_run md_init [])) @ [Pre (join_lines [''# h'', ''> q''])] \<rparr>)
            [''# y''])))"
    by blast
  then have w2: "renderMarkdown ?t2 = Some [Pre (''# h'' @ [CHR 0x0A] @ ''> q''), H2 ''y'']"
    by (simp only: e0 fl p2)
  show ?thesis using w1 w2 by blast
qed

section \<open>Properties of the routes\<close>

text \<open>
  C9. In \<^verbatim>\<open>GET\<close>, with the key configured and a non-empty \<^verbatim>\<open>ragId\<close> parameter, a listing call
  that comes back with a failure status is not reported: the handler sends that one call
  and answers 200 with \<^verbatim>\<open>success: true\<close>, the message that the API is running and the
  timestamp, neither an error nor a document list.
\<close>

theorem GET_listing_failure:
  assumes "key \<noteq> []" and "r \<noteq> []" and "U [] (ListDocs r) = Reply st text" and "\<not> ok st"
  shows "GET key now P U (Some r) =
           (\<lparr> status = 200,
              body = Json (JObj [(''success'', JBool True),
                                 (''message'', JStr ''RAG Knowledge Base API is running''),
                                 (''timestamp'', JStr now)]) \<rparr>,
            [ListDocs r])"
  using assms by (simp add: GET_def respond_def)

theorem GET_listing_failure_witness:
  "\<not> ok 503 \<and>
   GET ''key'' ''2026-01-01T00:00:00.000Z'' JSON_parse_table (\<lambda>sent rq. Reply 503 ''down'') (Some ''kb'') =
     (\<lparr> status = 200,
        body = Json (JObj [(''success'', JBool True),
                           (''message'', JStr ''RAG Knowledge Base API is running''),
                           (''timestamp'', JStr ''2026-01-01T00:00:00.000Z'')]) \<rparr>,
      [ListDocs ''kb''])"
  using GET_listing_failure [of "''key''" "''kb''" "\<lambda>sent rq. Reply 503 ''down''" 503 "''down''"
      "''2026-01-01T00:00:00.000Z''" JSON_parse_table]
  by (simp add: ok_def)

lemma str_includes_char: "str_includes s [c] = (c \<in> set s)"
  by (induction s) (auto simp: startsWith_def)

lemma find_path_strings:
  "find_path name (map JStr paths) = Inr (find (\<lambda>p. endsWith p (CHR ''/'' # name) \<or> p = name) paths)"
  by (induction paths) simp_all

lemma resolve_names_strings:
  "resolve_names (JArr (map JStr paths)) names =
     Inr (map (\<lambda>n. if CHR ''/'' \<in> set n then Some n
                    else find (\<lambda>p. endsWith p (CHR ''/'' # n) \<or> p = n) paths) names)"
  by (induction names) (simp_all add: resolve_name_def bindE_def str_includes_char find_path_strings)

lemma fullPaths_of_strings:
  "fullPaths_of (JArr (map JStr paths)) names = Inr (spec_retry_batch paths names)"
proof -
  have "map the (filter (\<lambda>r. r \<noteq> None \<and> r \<noteq> Some [])
          (map (\<lambda>n. if CHR ''/'' \<in> set n then Some n
                    else find (\<lambda>p. endsWith p (CHR ''/'' # n) \<or> p = n) paths) names))
        = spec_retry_batch paths names"
    by (induction names) (auto simp: spec_retry_batch_def spec_resolve_def split: option.splits)
  then show ?thesis
    by (simp add: fullPaths_of_def resolve_names_strings bindE_def)
qed

text \<open>When the first delete call succeeds nothing else is sent.\<close>

lemma DELETE_first_success:
  assumes "key \<noteq> []" and "ragId \<noteq> []"
    and "U [] (DeleteDocs ragId names) = Reply st text" and "ok st"
  shows "DELETE key now P U ragId names = (deleted now ragId (length names), [DeleteDocs ragId names])"
  using assms by (simp add: DELETE_def Let_def)

text \<open>The status of the failure response of the delete route: the status of the failed call
  when a response with a body can carry it, 500 from the \<^verbatim>\<open>catch\<close> otherwise.\<close>

lemma delete_failed_status:
  "status (delete_failed st tx) = (if st < 200 \<or> 599 < st \<or> st = 204 \<or> st = 205 \<or> st = 304 then 500 else st)"
  by (simp add: delete_failed_def json_response_def server_error_def respond_def)

text \<open>
  C4 (amended). When the first delete call fails and the listing call succeeds with an array
  of paths, the retry batch is, in the order of the request: every name with a path
  separator unchanged, matched in the listing or not; for every bare name the first path of
  the listing that ends with \<^verbatim>\<open>/name\<close> or is the name, when that path is not empty; nothing
  for any other bare name. A batch that is not empty is sent as the third call; with an
  empty batch no third call is made and the failure response is built from the status and
  text of the first call. The names \<^verbatim>\<open>["report.pdf"]\<close> with
  the listing \<^verbatim>\<open>["storage/report.pdf"]\<close> give the batch \<^verbatim>\<open>["storage/report.pdf"]\<close>.
\<close>

theorem DELETE_retry_batch:
  assumes "key \<noteq> []" and "ragId \<noteq> []"
    and "U [] (DeleteDocs ragId names) = Reply st text" and "\<not> ok st"
    and "U [DeleteDocs ragId names] (ListDocs ragId) = Reply lst ltext" and "ok lst"
    and "P ltext = Inr listData" and "listing_of listData = Inr (JArr (map JStr paths))"
  shows "fullPaths_of (JArr (map JStr paths)) names = Inr (spec_retry_batch paths names)
       \<and> (spec_retry_batch paths names \<noteq> [] \<longrightarrow>
            snd (DELETE key now P U ragId names) =
              [DeleteDocs ragId names, ListDocs ragId, DeleteDocs ragId (spec_retry_batch paths names)])
       \<and> (spec_retry_batch paths names = [] \<longrightarrow>
            DELETE key now P U ragId names =
              (delete_failed st text, [DeleteDocs ragId names, ListDocs ragId]))
       \<and> spec_retry_batch [''storage/report.pdf''] [''report.pdf''] = [''storage/report.pdf'']"
proof (intro conjI impI)
  show fp: "fullPaths_of (JArr (map JStr paths)) names = Inr (spec_retry_batch paths names)"
    by (rule fullPaths_of_strings)
  note l = assms(8)
  { assume ne: "spec_retry_batch paths names \<noteq> []"
    show "snd (DELETE key now P U ragId names) =
              [DeleteDocs ragId names, ListDocs ragId, DeleteDocs ragId (spec_retry_batch paths names)]"
      using assms ne
      by (simp add: DELETE_def Let_def l fp bindE_def split: reply.splits) }
  { assume e: "spec_retry_batch paths names = []"
    show "DELETE key now P U ragId names =
              (delete_failed st text, [DeleteDocs ragId names, ListDocs ragId])"
      using assms e
      by (simp add: DELETE_def Let_def l fp bindE_def) }
  show "spec_retry_batch [''storage/report.pdf''] [''report.pdf''] = [''storage/report.pdf'']"
    by (simp add: spec_retry_batch_def spec_resolve_def endsWith_def)
qed

theorem DELETE_retry_batch_witness:
  \<open>\<not> ok 404 \<and> ok 200 \<and>
   fullPaths_of (JArr (map JStr [''storage/report.pdf''])) [''a/b.txt'', ''missing.txt'', ''report.pdf'']
     = Inr [''a/b.txt'', ''storage/report.pdf''] \<and>
   snd (DELETE ''key'' ''now'' JSON_parse_table U_delete_sample ''kb'' [''a/b.txt'', ''missing.txt'', ''report.pdf''])
     = [DeleteDocs ''kb'' [''a/b.txt'', ''missing.txt'', ''report.pdf''], ListDocs ''kb'',
        DeleteDocs ''kb'' [''a/b.txt'', ''storage/report.pdf'']] \<and>
   DELETE ''key'' ''now'' JSON_parse_table U_delete_sample ''kb'' [''missing.txt'']
     = (\<lparr> status = 404,
          body = Json (JObj [(''success'', JBool False),
                             (''error'', JStr ''Failed to delete documents: 404''),
                             (''details'', JStr ''not found'')]) \<rparr>,
        [DeleteDocs ''kb'' [''missing.txt''], ListDocs ''kb''])\<close>
proof -
  have b: "spec_retry_batch [''storage/report.pdf''] [''a/b.txt'', ''missing.txt'', ''report.pdf'']
             = [''a/b.txt'', ''storage/report.pdf'']"
    by (simp add: spec_retry_batch_def spec_resolve_def endsWith_def)
  have e: "spec_retry_batch [''storage/report.pdf''] [''missing.txt''] = []"
    by (simp add: spec_retry_batch_def spec_resolve_def endsWith_def)
  have s: "show_nat 404 = ''404''" by code_simp
  have f: "delete_failed 404 ''not found'' =
             \<lparr> status = 404,
               body = Json (JObj [(''success'', JBool False),
                                  (''error'', JStr ''Failed to delete documents: 404''),
                                  (''details'', JStr ''not found'')]) \<rparr>"
    by (simp add: delete_failed_def json_response_def respond_def s)
  show ?thesis
    using DELETE_retry_batch [of "''key''" "''kb''" U_delete_sample
        "[''a/b.txt'', ''missing.txt'', ''report.pdf'']" 404 "''not found''" 200
        \<open>''["storage/report.pdf"]''\<close> JSON_parse_table "JArr [JStr ''storage/report.pdf'']"
        "[''storage/report.pdf'']" "''now''"]
      DELETE_retry_batch [of "''key''" "''kb''" U_delete_sample
        "[''missing.txt'']" 404 "''not found''" 200
        \<open>''["storage/report.pdf"]''\<close> JSON_parse_table "JArr [JStr ''storage/report.pdf'']"
        "[''storage/report.pdf'']" "''now''"]
    by (simp add: b e f U_delete_sample_def JSON_parse_table_def ok_def listing_of_def)
qed

text \<open>C4, as stated, fails: the bare name \<^verbatim>\<open>""\<close> has in the listing \<^verbatim>\<open>[""]\<close> a path equal to it,
  and \<^verbatim>\<open>.filter(Boolean)\<close> drops that path from the batch.\<close>

theorem empty_name_dropped:
  "\<not> str_includes [] ''/'' \<and> find (\<lambda>p. endsWith p (CHR ''/'' # []) \<or> p = []) [[]] = Some []
   \<and> fullPaths_of (JArr [JStr []]) [[]] = Inr []"
  by (simp add: fullPaths_of_def resolve_name_def bindE_def endsWith_def)

lemma try_parsers_failed_step:
  "attempt_failed P (U sent (mk p)) \<Longrightarrow>
   try_parsers P U mk (p # ps) td err sent =
     try_parsers P U mk ps td (attempt_error P (U sent (mk p))) (sent @ [mk p])"
  by (cases "U sent (mk p)") (auto split: sum.splits simp: isl_def)

lemma try_parsers_ok_step:
  "U sent (mk p) = Reply st text \<Longrightarrow> ok st \<Longrightarrow> P text = Inr d \<Longrightarrow>
   try_parsers P U mk (p # ps) td err sent = (d, err, sent @ [mk p])"
  by simp

lemma try_parsers_first_success:
  "k < length ps \<Longrightarrow>
   (\<forall>i<k. attempt_failed P (U (sent @ map mk (take i ps)) (mk (ps ! i)))) \<Longrightarrow>
   U (sent @ map mk (take k ps)) (mk (ps ! k)) = Reply st text \<Longrightarrow> ok st \<Longrightarrow> P text = Inr d \<Longrightarrow>
   \<exists>err'. try_parsers P U mk ps td err sent = (d, err', sent @ map mk (take (Suc k) ps))"
proof (induction ps arbitrary: k sent err)
  case Nil
  then show ?case by simp
next
  case (Cons p ps)
  show ?case
  proof (cases k)
    case 0
    with Cons.prems show ?thesis by simp
  next
    case (Suc j)
    have f0: "attempt_failed P (U sent (mk p))"
      using Cons.prems(2) Suc by force
    have fs: "\<forall>i<j. attempt_failed P (U ((sent @ [mk p]) @ map mk (take i ps)) (mk (ps ! i)))"
    proof (intro allI impI)
      fix i assume "i < j"
      then have "Suc i < k" using Suc by simp
      with Cons.prems(2) have "attempt_failed P (U (sent @ map mk (take (Suc i) (p # ps))) (mk ((p # ps) ! Suc i)))"
        by blast
      then show "attempt_failed P (U ((sent @ [mk p]) @ map mk (take i ps)) (mk (ps ! i)))" by simp
    qed
    have u: "U ((sent @ [mk p]) @ map mk (take j ps)) (mk (ps ! j)) = Reply st text"
      using Cons.prems(3) Suc by simp
    have "j < length ps" using Cons.prems(1) Suc by simp
    from Cons.IH [OF this fs u Cons.prems(4) Cons.prems(5)]
    obtain err' where "try_parsers P U mk ps td (attempt_error P (U sent (mk p))) (sent @ [mk p])
        = (d, err', (sent @ [mk p]) @ map mk (take (Suc j) ps))" by blast
    then show ?thesis
      using try_parsers_failed_step [where P=P and U=U and sent=sent and mk=mk and p=p, OF f0] Suc by simp
  qed
qed

lemma try_parsers_all_failed:
  "ps \<noteq> [] \<Longrightarrow>
   (\<forall>i<length ps. attempt_failed P (U (sent @ map mk (take i ps)) (mk (ps ! i)))) \<Longrightarrow>
   try_parsers P U mk ps td err sent =
     (td, attempt_error P (U (sent @ map mk (butlast ps)) (mk (last ps))), sent @ map mk ps)"
proof (induction ps arbitrary: sent err)
  case Nil
  then show ?case by simp
next
  case (Cons p ps)
  have f0: "attempt_failed P (U sent (mk p))"
    using Cons.prems(2) by force
  show ?case
  proof (cases "ps = []")
    case True
    then show ?thesis using try_parsers_failed_step [where P=P and U=U and sent=sent and mk=mk and p=p, OF f0] by simp
  next
    case False
    have fs: "\<forall>i<length ps. attempt_failed P (U ((sent @ [mk p]) @ map mk (take i ps)) (mk (ps ! i)))"
    proof (intro allI impI)
      fix i assume "i < length ps"
      then have "Suc i < length (p # ps)" by simp
      with Cons.prems(2) have "attempt_failed P (U (sent @ map mk (take (Suc i) (p # ps))) (mk ((p # ps) ! Suc i)))"
        by blast
      then show "attempt_failed P (U ((sent @ [mk p]) @ map mk (take i ps)) (mk (ps ! i)))" by simp
    qed
    from Cons.IH [OF False fs] show ?thesis
      using try_parsers_failed_step [where P=P and U=U and sent=sent and mk=mk and p=p, OF f0] False by simp
  qed
qed

lemma all_less_2: "(\<forall>i<2::nat. Q i) = (Q 0 \<and> Q 1)"
  by (auto simp: less_2_cases_iff)

lemma all_less_3: "(\<forall>i<3::nat. Q i) = (Q 0 \<and> Q 1 \<and> Q 2)"
proof -
  have "\<And>i::nat. i < 3 \<longleftrightarrow> i = 0 \<or> i = 1 \<or> i = 2" by arith
  then show ?thesis by auto
qed

lemma sample_resolves: "resolve_type sample_file = Own ''pdf''"
  by (simp add: resolve_type_def sample_file_def FILE_TYPE_MAP_def)

lemma upload_request_is_form: "\<not> str_includes (contentType_of (upload_request f)) ''application/json''"
  by (simp add: contentType_of_def upload_request_def startsWith_def)

lemma sample_type: "FILE_TYPE_MAP (file_type sample_file) = Own ''pdf''"
  by (simp add: sample_file_def FILE_TYPE_MAP_def)

lemma upload_request_form:
  "req_form (upload_request f) = Inr \<lparr> ragId_field = Some ''kb'', file_field = Some f \<rparr>"
  by (simp add: upload_request_def)

text \<open>
  C2 (amended). In \<^verbatim>\<open>POST\<close> of part_001, for an upload whose file type resolves to one of
  \<^verbatim>\<open>pdf\<close>, \<^verbatim>\<open>docx\<close>, \<^verbatim>\<open>txt\<close>: train calls go out in the order \<^verbatim>\<open>auto\<close>, \<^verbatim>\<open>llmsherpa\<close>,
  \<^verbatim>\<open>none\<close>, each with the bytes of the file, up to the first reply that has a success status
  and a body that decodes as JSON. When the attempts before attempt \<open>k + 1\<close> fail and
  attempt \<open>k + 1\<close> has such a reply, exactly \<open>k + 1\<close> calls are made, whatever the body
  decodes to; when the decoded body is truthy the response is the success response built
  from that body. In \<^verbatim>\<open>POST\<close> of part_000, for an upload whose media type is one of the
  three, exactly one train call is made whatever the reply, with the parser \<^verbatim>\<open>auto\<close> and the
  bytes of the file; a reply with a failure status is reported as a failure built with that
  status, and a reply with a success status and a decoded body other than \<^verbatim>\<open>null\<close> as the
  success response built from that body.
\<close>

theorem upload_first_success:
  assumes "key \<noteq> []" and "\<not> str_includes (contentType_of rq) ''application/json''"
    and "req_form rq = Inr \<lparr> ragId_field = Some ragId, file_field = Some f \<rparr>" and "ragId \<noteq> []"
  shows "(resolve_type f = Own t \<and> k < 3
          \<and> (\<forall>i<k. attempt_failed P
                (U (map (\<lambda>p. Train (Own t) ragId (buildTrainForm f p)) (take i [''auto'', ''llmsherpa'', ''none'']))
                   (Train (Own t) ragId (buildTrainForm f ([''auto'', ''llmsherpa'', ''none''] ! i)))))
          \<and> U (map (\<lambda>p. Train (Own t) ragId (buildTrainForm f p)) (take k [''auto'', ''llmsherpa'', ''none'']))
               (Train (Own t) ragId (buildTrainForm f ([''auto'', ''llmsherpa'', ''none''] ! k))) = Reply st tx
          \<and> ok st \<and> P tx = Inr d
        \<longrightarrow> snd (POST_part_001 key now P U rq) =
              map (\<lambda>p. Train (Own t) ragId (buildTrainForm f p)) (take (Suc k) [''auto'', ''llmsherpa'', ''none''])
            \<and> (truthy d \<longrightarrow> fst (POST_part_001 key now P U rq) = trained now f (Own t) d ragId))
       \<and> form_file_bytes (buildTrainForm f p) = file_bytes f
       \<and> data_parser (buildTrainForm f p) = p
       \<and> (FILE_TYPE_MAP (file_type f) = Own t
        \<longrightarrow> snd (POST_part_000 key now P U rq) = [Train (Own t) ragId (trainFormData f)]
            \<and> data_parser (trainFormData f) = ''auto''
            \<and> form_file_bytes (trainFormData f) = file_bytes f
            \<and> (U [] (Train (Own t) ragId (trainFormData f)) = Reply st tx \<and> \<not> ok st
               \<longrightarrow> fst (POST_part_000 key now P U rq) =
                     json_response st [(''success'', JBool False),
                       (''error'', JStr (''Failed to train document: '' @ show_nat st)),
                       (''details'', JStr tx)])
            \<and> (U [] (Train (Own t) ragId (trainFormData f)) = Reply st tx \<and> ok st
                 \<and> P tx = Inr d \<and> d \<noteq> JNull \<and> d \<noteq> JUndefined
               \<longrightarrow> fst (POST_part_000 key now P U rq) = trained now f (Own t) d ragId))"
proof (intro conjI impI)
  let ?mk = "\<lambda>p. Train (Own t) ragId (buildTrainForm f p)"
  assume a: "resolve_type f = Own t \<and> k < 3
          \<and> (\<forall>i<k. attempt_failed P
                (U (map ?mk (take i [''auto'', ''llmsherpa'', ''none'']))
                   (?mk ([''auto'', ''llmsherpa'', ''none''] ! i))))
          \<and> U (map ?mk (take k [''auto'', ''llmsherpa'', ''none'']))
               (?mk ([''auto'', ''llmsherpa'', ''none''] ! k)) = Reply st tx
          \<and> ok st \<and> P tx = Inr d"
  have k: "k < length parsers" using a by (simp add: parsers_def)
  have fs: "\<forall>i<k. attempt_failed P (U ([] @ map ?mk (take i parsers)) (?mk (parsers ! i)))"
    using a by (simp add: parsers_def)
  have u: "U ([] @ map ?mk (take k parsers)) (?mk (parsers ! k)) = Reply st tx"
    using a by (simp add: parsers_def)
  have o: "ok st" and pd: "P tx = Inr d" and rt: "resolve_type f = Own t" using a by simp_all
  from try_parsers_first_success [where mk = ?mk and sent = "[]" and td = JNull and err = "[]",
      OF k fs u o pd]
  obtain err' where tp: "try_parsers P U ?mk parsers JNull [] [] = (d, err', [] @ map ?mk (take (Suc k) parsers))"
    by blast
  show "snd (POST_part_001 key now P U rq) = map ?mk (take (Suc k) [''auto'', ''llmsherpa'', ''none''])"
    using assms rt tp by (simp add: POST_part_001_def upload_part_001_def parsers_def)
  { assume "truthy d"
    then show "fst (POST_part_001 key now P U rq) = trained now f (Own t) d ragId"
      using assms rt tp by (simp add: POST_part_001_def upload_part_001_def parsers_def) }
next
  show "form_file_bytes (buildTrainForm f p) = file_bytes f" by (simp add: buildTrainForm_def)
  show "data_parser (buildTrainForm f p) = p" by (simp add: buildTrainForm_def)
  show "data_parser (trainFormData f) = ''auto''" by (simp add: trainFormData_def)
  show "form_file_bytes (trainFormData f) = file_bytes f" by (simp add: trainFormData_def)
next
  assume t: "FILE_TYPE_MAP (file_type f) = Own t"
  show "snd (POST_part_000 key now P U rq) = [Train (Own t) ragId (trainFormData f)]"
    using assms t
    by (simp add: POST_part_000_def upload_part_000_def Let_def split: reply.splits sum.splits)
  { assume "U [] (Train (Own t) ragId (trainFormData f)) = Reply st tx \<and> \<not> ok st"
    then show "fst (POST_part_000 key now P U rq) =
                     json_response st [(''success'', JBool False),
                       (''error'', JStr (''Failed to train document: '' @ show_nat st)),
                       (''details'', JStr tx)]"
      using assms t by (simp add: POST_part_000_def upload_part_000_def Let_def) }
  { assume "U [] (Train (Own t) ragId (trainFormData f)) = Reply st tx \<and> ok st
                 \<and> P tx = Inr d \<and> d \<noteq> JNull \<and> d \<noteq> JUndefined"
    then show "fst (POST_part_000 key now P U rq) = trained now f (Own t) d ragId"
      using assms t by (simp add: POST_part_000_def upload_part_000_def Let_def read_prop_not_null) }
qed

theorem upload_first_success_witness:
  \<open>POST_part_001 ''key'' ''now'' JSON_parse_table U_third_succeeds (upload_request sample_file) =
     (trained ''now'' sample_file (Own ''pdf'') (JObj [(''document_count'', JNum ''3'')]) ''kb'',
      [Train (Own ''pdf'') ''kb'' (buildTrainForm sample_file ''auto''),
       Train (Own ''pdf'') ''kb'' (buildTrainForm sample_file ''llmsherpa''),
       Train (Own ''pdf'') ''kb'' (buildTrainForm sample_file ''none'')])
 \<and> snd (POST_part_001 ''key'' ''now'' JSON_parse_table (\<lambda>sent rq. Reply 200 ''null'')
          (upload_request sample_file)) =
     [Train (Own ''pdf'') ''kb'' (buildTrainForm sample_file ''auto'')]
 \<and> POST_part_000 ''key'' ''now'' JSON_parse_table U_fails_once (upload_request sample_file) =
     (\<lparr> status = 503,
        body = Json (JObj [(''success'', JBool False),
                           (''error'', JStr ''Failed to train document: 503''),
                           (''details'', JStr ''busy'')]) \<rparr>,
      [Train (Own ''pdf'') ''kb'' (trainFormData sample_file)])\<close>
proof -
  let ?rq = "upload_request sample_file"
  let ?mk = "\<lambda>p. Train (Own ''pdf'') ''kb'' (buildTrainForm sample_file p)"
  let ?d = "JObj [(''document_count'', JNum ''3'')]"
  let ?tx = \<open>''{"document_count":3}''\<close>
  let ?U = "\<lambda>(sent :: up_request list) (rq :: up_request). Reply 200 ''null''"
  have p1: "''key'' \<noteq> []" by simp
  have p4: "''kb'' \<noteq> []" by simp
  note m = upload_first_success [where key = "''key''" and rq = ?rq and ragId = "''kb''"
      and f = sample_file and t = "''pdf''" and P = JSON_parse_table and now = "''now''",
      OF p1 upload_request_is_form upload_request_form p4]
  have a: "snd (POST_part_001 ''key'' ''now'' JSON_parse_table U_third_succeeds ?rq) =
              map ?mk (take (Suc 2) [''auto'', ''llmsherpa'', ''none''])
         \<and> (truthy ?d \<longrightarrow> fst (POST_part_001 ''key'' ''now'' JSON_parse_table U_third_succeeds ?rq)
               = trained ''now'' sample_file (Own ''pdf'') ?d ''kb'')"
    by (rule m [where U = U_third_succeeds and k = 2 and st = 200
          and tx = ?tx and d = ?d, THEN conjunct1, THEN mp])
       (simp add: sample_resolves all_less_2 U_third_succeeds_def ok_def JSON_parse_table_def)
  then have w1: "POST_part_001 ''key'' ''now'' JSON_parse_table U_third_succeeds ?rq =
     (trained ''now'' sample_file (Own ''pdf'') ?d ''kb'', [?mk ''auto'', ?mk ''llmsherpa'', ?mk ''none''])"
    by (intro prod_eqI) (simp_all add: numeral_3_eq_3 numeral_2_eq_2)
  have "snd (POST_part_001 ''key'' ''now'' JSON_parse_table ?U ?rq) =
              map ?mk (take (Suc 0) [''auto'', ''llmsherpa'', ''none''])
         \<and> (truthy JNull \<longrightarrow> fst (POST_part_001 ''key'' ''now'' JSON_parse_table ?U ?rq)
               = trained ''now'' sample_file (Own ''pdf'') JNull ''kb'')"
    by (rule m [where U = ?U and k = 0 and st = 200 and tx = "''null''" and d = JNull,
          THEN conjunct1, THEN mp])
       (simp add: sample_resolves ok_def JSON_parse_table_def)
  then have w2: "snd (POST_part_001 ''key'' ''now'' JSON_parse_table ?U ?rq) = [?mk ''auto'']"
    by simp
  have s: "show_nat 503 = ''503''" by code_simp
  note z = m [where U = U_fails_once and st = 503 and tx = "''busy''", THEN conjunct2,
      THEN conjunct2, THEN conjunct2, THEN mp, OF sample_type]
  have c: "snd (POST_part_000 ''key'' ''now'' JSON_parse_table U_fails_once ?rq)
             = [Train (Own ''pdf'') ''kb'' (trainFormData sample_file)]"
    by (rule z [THEN conjunct1])
  have "fst (POST_part_000 ''key'' ''now'' JSON_parse_table U_fails_once ?rq) =
          json_response 503 [(''success'', JBool False),
            (''error'', JStr (''Failed to train document: '' @ show_nat 503)),
            (''details'', JStr ''busy'')]"
    by (rule z [THEN conjunct2, THEN conjunct2, THEN conjunct2, THEN conjunct1, THEN mp])
       (simp add: U_fails_once_def ok_def)
  then have w3: "POST_part_000 ''key'' ''now'' JSON_parse_table U_fails_once ?rq =
     (\<lparr> status = 503,
        body = Json (JObj [(''success'', JBool False),
                           (''error'', JStr ''Failed to train document: 503''),
                           (''details'', JStr ''busy'')]) \<rparr>,
      [Train (Own ''pdf'') ''kb'' (trainFormData sample_file)])"
    using c by (intro prod_eqI) (simp_all add: s json_response_def respond_def)
  show ?thesis using w1 w2 w3 by (intro conjI)
qed

text \<open>C2, as stated, fails. In part_001 a first reply with status 200 whose body is not JSON
  is followed by a second call; in part_000 there is no fallback: one failed call with the
  parser \<^verbatim>\<open>auto\<close> ends the upload with its status.\<close>

theorem upload_fallback_counterexample:
  \<open>ok 200 \<and>
   snd (POST_part_001 ''key'' ''now'' JSON_parse_table U_ok_without_json (upload_request sample_file)) =
     [Train (Own ''pdf'') ''kb'' (buildTrainForm sample_file ''auto''),
      Train (Own ''pdf'') ''kb'' (buildTrainForm sample_file ''llmsherpa'')]
 \<and> map_prod status id (POST_part_000 ''key'' ''now'' JSON_parse_table U_fails_once (upload_request sample_file)) =
     (503, [Train (Own ''pdf'') ''kb'' (trainFormData sample_file)])\<close>
proof (intro conjI)
  show "ok 200" by (simp add: ok_def)
  show \<open>snd (POST_part_001 ''key'' ''now'' JSON_parse_table U_ok_without_json (upload_request sample_file)) =
     [Train (Own ''pdf'') ''kb'' (buildTrainForm sample_file ''auto''),
      Train (Own ''pdf'') ''kb'' (buildTrainForm sample_file ''llmsherpa'')]\<close>
    by (simp add: POST_part_001_def upload_part_001_def upload_request_is_form upload_request_form
        sample_resolves parsers_def U_ok_without_json_def ok_def JSON_parse_table_def)
  show \<open>map_prod status id (POST_part_000 ''key'' ''now'' JSON_parse_table U_fails_once (upload_request sample_file)) =
     (503, [Train (Own ''pdf'') ''kb'' (trainFormData sample_file)])\<close>
    by (simp add: POST_part_000_def upload_part_000_def upload_request_is_form upload_request_form
        sample_type U_fails_once_def ok_def respond_def json_response_def)
qed

text \<open>
  C5 (amended). In \<^verbatim>\<open>POST\<close> of part_001, when all three train attempts fail, the three calls
  have been made in order and the response has status 500, whatever statuses the attempts
  had, the error \<^verbatim>\<open>Failed to train document after trying multiple parsers\<close>, and as details
  the error text of the last attempt.
\<close>

theorem upload_all_failed:
  assumes "key \<noteq> []" and "\<not> str_includes (contentType_of rq) ''application/json''"
    and "req_form rq = Inr \<lparr> ragId_field = Some ragId, file_field = Some f \<rparr>" and "ragId \<noteq> []"
    and "resolve_type f = Own t"
    and "U [] (Train (Own t) ragId (buildTrainForm f ''auto'')) = r1"
    and "U [Train (Own t) ragId (buildTrainForm f ''auto'')]
           (Train (Own t) ragId (buildTrainForm f ''llmsherpa'')) = r2"
    and "U [Train (Own t) ragId (buildTrainForm f ''auto''),
            Train (Own t) ragId (buildTrainForm f ''llmsherpa'')]
           (Train (Own t) ragId (buildTrainForm f ''none'')) = r3"
    and "attempt_failed P r1" and "attempt_failed P r2" and "attempt_failed P r3"
  shows "POST_part_001 key now P U rq =
           (\<lparr> status = 500,
              body = Json (JObj [(''success'', JBool False),
                                 (''error'', JStr ''Failed to train document after trying multiple parsers''),
                                 (''details'', JStr (attempt_error P r3))]) \<rparr>,
            [Train (Own t) ragId (buildTrainForm f ''auto''),
             Train (Own t) ragId (buildTrainForm f ''llmsherpa''),
             Train (Own t) ragId (buildTrainForm f ''none'')])"
proof -
  let ?mk = "\<lambda>p. Train (Own t) ragId (buildTrainForm f p)"
  have "\<forall>i<3. attempt_failed P (U ([] @ map ?mk (take i parsers)) (?mk (parsers ! i)))"
    using assms(6-11) by (simp add: parsers_def all_less_3)
  then have fs: "\<forall>i<length parsers. attempt_failed P (U ([] @ map ?mk (take i parsers)) (?mk (parsers ! i)))"
    by (simp add: parsers_def numeral_3_eq_3)
  have "try_parsers P U ?mk parsers JNull [] [] =
          (JNull, attempt_error P (U ([] @ map ?mk (butlast parsers)) (?mk (last parsers))), [] @ map ?mk parsers)"
    by (rule try_parsers_all_failed [OF _ fs]) (simp add: parsers_def)
  then show ?thesis
    using assms(1-5,8)
    by (simp add: POST_part_001_def upload_part_001_def parsers_def respond_def)
qed

theorem upload_all_failed_witness:
  "POST_part_001 ''key'' ''now'' JSON_parse_table
       (\<lambda>sent rq. if length sent < 2 then Reply 503 ''busy'' else Throws (WithMessage ''socket hang up''))
       (upload_request sample_file) =
     (\<lparr> status = 500,
        body = Json (JObj [(''success'', JBool False),
                           (''error'', JStr ''Failed to train document after trying multiple parsers''),
                           (''details'', JStr ''socket hang up'')]) \<rparr>,
      [Train (Own ''pdf'') ''kb'' (buildTrainForm sample_file ''auto''),
       Train (Own ''pdf'') ''kb'' (buildTrainForm sample_file ''llmsherpa''),
       Train (Own ''pdf'') ''kb'' (buildTrainForm sample_file ''none'')])"
  using upload_all_failed [where key = "''key''" and rq = "upload_request sample_file" and ragId = "''kb''"
      and f = sample_file and t = "''pdf''" and P = JSON_parse_table and now = "''now''"
      and U = "\<lambda>sent rq. if length sent < 2 then Reply 503 ''busy'' else Throws (WithMessage ''socket hang up'')"
      and ?r1.0 = "Reply 503 ''busy''" and ?r2.0 = "Reply 503 ''busy''"
      and ?r3.0 = "Throws (WithMessage ''socket hang up'')"]
  by (simp add: upload_request_is_form upload_request_form sample_resolves ok_def)

text \<open>C5, as stated, fails: when every attempt is refused with 422 the response has status
  500, not the status of the last attempt.\<close>

theorem upload_failure_status_counterexample:
  "\<not> ok 422 \<and>
   U_always_422 [Train (Own ''pdf'') ''kb'' (buildTrainForm sample_file ''auto''),
                 Train (Own ''pdf'') ''kb'' (buildTrainForm sample_file ''llmsherpa'')]
                (Train (Own ''pdf'') ''kb'' (buildTrainForm sample_file ''none'')) = Reply 422 ''unprocessable'' \<and>
   status (fst (POST_part_001 ''key'' ''now'' JSON_parse_table U_always_422 (upload_request sample_file))) = 500"
  by (simp add: POST_part_001_def upload_part_001_def upload_request_is_form upload_request_form
      sample_resolves parsers_def U_always_422_def ok_def respond_def)

text \<open>
  C7. The check of the file type does not reject every unsupported type: the media type
  \<^verbatim>\<open>constructor\<close> finds the member that \<^verbatim>\<open>FILE_TYPE_MAP\<close> inherits from \<^verbatim>\<open>Object.prototype\<close>, which
  is truthy, so with the file name \<^verbatim>\<open>notes.bin\<close> neither version answers 400 and both call
  the train endpoint.
\<close>

theorem inherited_type_not_rejected:
  "FILE_TYPE_MAP (file_type odd_file) = Inherited ''constructor'' \<and>
   type_of_extension (file_name odd_file) = Absent \<and>
   POST_part_001 ''key'' ''now'' JSON_parse_table U_always_422 (upload_request odd_file) =
     (\<lparr> status = 500,
        body = Json (JObj [(''success'', JBool False),
                           (''error'', JStr ''Failed to train document after trying multiple parsers''),
                           (''details'', JStr ''unprocessable'')]) \<rparr>,
      [Train (Inherited ''constructor'') ''kb'' (buildTrainForm odd_file ''auto''),
       Train (Inherited ''constructor'') ''kb'' (buildTrainForm odd_file ''llmsherpa''),
       Train (Inherited ''constructor'') ''kb'' (buildTrainForm odd_file ''none'')]) \<and>
   POST_part_000 ''key'' ''now'' JSON_parse_table U_always_422 (upload_request odd_file) =
     (\<lparr> status = 422,
        body = Json (JObj [(''success'', JBool False),
                           (''error'', JStr ''Failed to train document: 422''),
                           (''details'', JStr ''unprocessable'')]) \<rparr>,
      [Train (Inherited ''constructor'') ''kb'' (trainFormData odd_file)])"
proof -
  have t: "FILE_TYPE_MAP (file_type odd_file) = Inherited ''constructor''"
    by (simp add: odd_file_def FILE_TYPE_MAP_def object_prototype_names_def)
  have e: "type_of_extension (file_name odd_file) = Absent"
    by (simp add: odd_file_def type_of_extension_def toLowerCase_def toLowerChar_def)
  have s: "show_nat 422 = ''422''" by code_simp
  show ?thesis
    by (simp add: t e s POST_part_001_def POST_part_000_def upload_part_001_def upload_part_000_def
        resolve_type_def upload_request_is_form upload_request_form parsers_def U_always_422_def
        ok_def respond_def json_response_def)
qed

text \<open>For a media type that finds nothing in \<^verbatim>\<open>FILE_TYPE_MAP\<close>, own or inherited, and a file
  name whose extension is none of the three, both versions answer 400 and call nothing.\<close>

lemma unsupported_type_rejected:
  assumes "key \<noteq> []" and "\<not> str_includes (contentType_of rq) ''application/json''"
    and "req_form rq = Inr \<lparr> ragId_field = Some ragId, file_field = Some file \<rparr>" and "ragId \<noteq> []"
    and "FILE_TYPE_MAP (file_type file) = Absent"
    and "toLowerCase (last (split_on (CHR ''.'') (file_name file))) \<notin> {''pdf'', ''docx'', ''txt''}"
  shows "status (fst (POST_part_001 key now P U rq)) = 400 \<and> snd (POST_part_001 key now P U rq) = []
       \<and> status (fst (POST_part_000 key now P U rq)) = 400 \<and> snd (POST_part_000 key now P U rq) = []"
  using assms
  by (simp add: POST_part_001_def POST_part_000_def upload_part_001_def upload_part_000_def
      resolve_type_def type_of_extension_def respond_def Let_def)

end
